theory Spec2Isabelle
  imports Complex_Main
begin

section \<open>Data model of \<open>BDDLBaseDomain\<close>\<close>

text \<open>
  The environment class of \<^verbatim>\<open>libero/libero/envs/bddl_base_domain.py\<close> is modelled as a
  record of the attributes its reward and placement code reads and writes.  Python
  floats are modelled as \<^typ>\<open>real\<close> (exact arithmetic, no rounding, no NaN).
  Exceptions are values of type \<open>error\<close>; a method that can raise returns
  \<open>error + 'a\<close> with \<open>Inl\<close> carrying the exception.
\<close>

datatype error =
    KeyError string
  | IndexError
  | ValueError
  | AttributeError
  | NotImplementedError string

text \<open>An object state wrapper (\<open>ObjectState\<close> or \<open>SiteObjectState\<close>): the parts the
  reward code reads.  \<open>geom_pos\<close> is \<^verbatim>\<open>get_geom_state()["pos"]\<close>, \<open>joint_state\<close> is
  \<^verbatim>\<open>get_joint_state()\<close>, \<open>has_set_joint\<close> is \<^verbatim>\<open>hasattr(_, "set_joint")\<close>.\<close>

record obj_state =
  is_ObjectState :: bool
  geom_pos :: "real \<times> real \<times> real"
  joint_state :: "real list"
  has_set_joint :: bool

text \<open>A scene object (movable object, fixture or site).  \<open>object_properties\<close> is
  \<open>None\<close> when the attribute is absent; otherwise it is the dictionary of property
  groups, each a dictionary of named range tables (lists of floats).\<close>

record obj =
  obj_name :: string
  is_ArticulatedObject :: bool
  object_properties :: "(string \<rightharpoonup> (string \<rightharpoonup> real list)) option"

record region =
  target :: string
  ranges :: "real list list"
  yaw_rotation :: "real list"

record parsed_problem =
  problem_name :: string
  fixtures :: "(string \<times> string list) list"
  objects :: "(string \<times> string list) list"
  regions :: "string \<rightharpoonup> region"
  initial_state :: "string list list"
  goal_state :: "string list list"

text \<open>Placement samplers.  The sampler classes are external; a sampler is recorded
  by its class, its name, the object it places and the sample arguments
  (\<open>reference\<close>, \<open>site_name\<close>) it was appended with.  \<open>RegionSampler p c\<close> is the class
  returned by \<^verbatim>\<open>get_region_samplers(p, c)\<close>.\<close>

datatype sampler_class =
    MultiRegionRandomSampler
  | RegionSampler string string
  | SiteRegionRandomSampler
  | InSiteRegionRandomSampler
  | ObjectBasedSampler

record sampler =
  sampler_class :: sampler_class
  sampler_name :: string
  mujoco_objects :: string
  reference :: "string option"
  site_name :: "string option"

datatype property_sampler =
    OpenCloseSampler string string "real list"
  | TurnOnOffSampler string string "real list"
  | OtherSampler

record env =
  reward_scale :: "real option"
  reward_shaping :: bool
  parsed_problem :: parsed_problem
  objects_dict :: "string \<rightharpoonup> obj"
  fixtures_dict :: "string \<rightharpoonup> obj"
  object_sites_dict :: "string \<rightharpoonup> obj"
  object_states_dict :: "string \<rightharpoonup> obj_state"
  previous_distance :: "real option"
  placement_initializer :: "sampler list"
  conditional_placement_initializer :: "sampler list"
  conditional_placement_on_objects_initializer :: "sampler list"
  object_property_initializers :: "property_sampler list"
  deterministic_reset :: bool

text \<open>The external predicate evaluator \<^verbatim>\<open>eval_predicate_fn(name, *args)\<close> is a parameter
  of the model: a function from the predicate name and the argument object states to
  a truth value.\<close>

type_synonym evaluator = "string \<Rightarrow> obj_state list \<Rightarrow> bool"

section \<open>Python helpers\<close>

definition lower_char :: "char \<Rightarrow> char" where
  "lower_char c =
     (case map_of (zip ''ABCDEFGHIJKLMNOPQRSTUVWXYZ'' ''abcdefghijklmnopqrstuvwxyz'') c of
        Some d \<Rightarrow> d
      | None \<Rightarrow> c)"

text \<open>\<^verbatim>\<open>str.lower()\<close> on ASCII strings.\<close>

definition lower :: "string \<Rightarrow> string" where
  "lower s = map lower_char s"

text \<open>\<^verbatim>\<open>min(xs)\<close> and \<^verbatim>\<open>max(xs)\<close> raise \<open>ValueError\<close> on an empty sequence.\<close>

fun py_min :: "real list \<Rightarrow> error + real" where
  "py_min [] = Inl ValueError"
| "py_min (x # xs) = Inr (fold min xs x)"

fun py_max :: "real list \<Rightarrow> error + real" where
  "py_max [] = Inl ValueError"
| "py_max (x # xs) = Inr (fold max xs x)"

text \<open>\<^verbatim>\<open>np.clip(x, lo, hi)\<close>.\<close>

definition np_clip :: "real \<Rightarrow> real \<Rightarrow> real \<Rightarrow> real" where
  "np_clip x lo hi = min (max x lo) hi"

text \<open>\<open>get_object\<close>: the first of fixtures, objects, sites that knows the name;
  falls off the end (returns \<open>None\<close>) otherwise.\<close>

definition get_object :: "env \<Rightarrow> string \<Rightarrow> obj option" where
  "get_object e object_name =
     (case fixtures_dict e object_name of
        Some v \<Rightarrow> Some v
      | None \<Rightarrow>
          (case objects_dict e object_name of
             Some v \<Rightarrow> Some v
           | None \<Rightarrow> object_sites_dict e object_name))"

section \<open>Predicate progress (\<open>_get_predicate_progress\<close>)\<close>

text \<open>The joint-range part shared verbatim by the \<open>open\<close>/\<open>close\<close> and the
  \<open>turnon\<close>/\<open>turnoff\<close> branches: the four extremes, the two direction cases with
  their \<open>1e-6\<close> denominator guard, and the final clip.\<close>

definition range_progress :: "real \<Rightarrow> real list \<Rightarrow> real list \<Rightarrow> error + real" where
  "range_progress q_curr target_ranges opposite_ranges =
     (case py_min target_ranges of Inl err \<Rightarrow> Inl err | Inr q_target_min_val \<Rightarrow>
     (case py_max target_ranges of Inl err \<Rightarrow> Inl err | Inr q_target_max_val \<Rightarrow>
     (case py_min opposite_ranges of Inl err \<Rightarrow> Inl err | Inr q_opp_min_val \<Rightarrow>
     (case py_max opposite_ranges of Inl err \<Rightarrow> Inl err | Inr q_opp_max_val \<Rightarrow>
        (let current_progress =
           (if q_target_max_val < q_opp_min_val then
              (let denominator = q_opp_max_val - q_target_max_val in
               if denominator > 1 / 1000000
               then (q_opp_max_val - q_curr) / denominator else 0)
            else if q_target_min_val > q_opp_max_val then
              (let denominator = q_target_min_val - q_opp_max_val in
               if denominator > 1 / 1000000
               then (q_curr - q_opp_max_val) / denominator else 0)
            else 0)
         in Inr (np_clip current_progress 0 1))))))"

text \<open>The body of a unary branch after the predicate name has been matched:
  the articulated-object checks, each returning \<open>0.0\<close> when it fails.\<close>

definition articulated_progress ::
  "env \<Rightarrow> string \<Rightarrow> obj_state \<Rightarrow> string \<Rightarrow> string \<Rightarrow> error + real" where
  "articulated_progress e object_name st target_key opposite_key =
     (case get_object e object_name of
        None \<Rightarrow> Inr 0
      | Some ob \<Rightarrow>
          if \<not> is_ObjectState st \<or> \<not> is_ArticulatedObject ob then Inr 0
          else
            (case joint_state st of
               [] \<Rightarrow> Inr 0
             | q_curr # _ \<Rightarrow>
                 (case object_properties ob of
                    None \<Rightarrow> Inr 0
                  | Some props \<Rightarrow>
                      (case props ''articulation'' of
                         None \<Rightarrow> Inr 0
                       | Some art_props \<Rightarrow>
                           (case art_props target_key of
                              None \<Rightarrow> Inr 0
                            | Some target_ranges \<Rightarrow>
                                (case art_props opposite_key of
                                   None \<Rightarrow> Inr 0
                                 | Some opposite_ranges \<Rightarrow>
                                     range_progress q_curr target_ranges opposite_ranges))))))"

definition binary_progress ::
  "evaluator \<Rightarrow> env \<Rightarrow> string \<Rightarrow> string \<Rightarrow> string \<Rightarrow> error + real" where
  "binary_progress ev e predicate_fn_name object_1_name object_2_name =
     (case object_states_dict e object_1_name of
        None \<Rightarrow> Inl (KeyError object_1_name)
      | Some obj1 \<Rightarrow>
     (case object_states_dict e object_2_name of
        None \<Rightarrow> Inl (KeyError object_2_name)
      | Some obj2 \<Rightarrow>
          if ev predicate_fn_name [obj1, obj2] then Inr 1
          else if lower predicate_fn_name = ''on'' then
            (case (geom_pos obj1, geom_pos obj2) of
               ((x1, y1, z1), (x2, y2, z2)) \<Rightarrow>
                 (let horizontal_dist = sqrt ((x1 - x2)\<^sup>2 + (y1 - y2)\<^sup>2)
                  in Inr (max 0 (1 - horizontal_dist / 1))))
          else if lower predicate_fn_name = ''in'' then
            (case (geom_pos obj1, geom_pos obj2) of
               ((x1, y1, z1), (x2, y2, z2)) \<Rightarrow>
                 (let dist = sqrt ((x1 - x2)\<^sup>2 + (y1 - y2)\<^sup>2 + (z1 - z2)\<^sup>2)
                  in Inr (max 0 (1 - dist / 1))))
          else Inl (NotImplementedError predicate_fn_name)))"

definition unary_progress ::
  "evaluator \<Rightarrow> env \<Rightarrow> string \<Rightarrow> string \<Rightarrow> error + real" where
  "unary_progress ev e predicate_fn_name_orig_case object_name =
     (let predicate_fn_name_lower = lower predicate_fn_name_orig_case in
      case object_states_dict e object_name of
        None \<Rightarrow> Inl (KeyError object_name)
      | Some st \<Rightarrow>
          if ev predicate_fn_name_orig_case [st] then Inr 1
          else if predicate_fn_name_lower \<in> set [''open'', ''close''] then
            articulated_progress e object_name st
              (''default_'' @ predicate_fn_name_lower @ ''_ranges'')
              (''default_'' @
                 (if predicate_fn_name_lower = ''open'' then ''close_ranges''
                  else ''open_ranges''))
          else if predicate_fn_name_lower \<in> set [''turnon'', ''turnoff''] then
            articulated_progress e object_name st
              (''default_'' @ predicate_fn_name_lower @ ''_ranges'')
              (''default_'' @
                 (if predicate_fn_name_lower = ''turnon'' then ''turnoff_ranges''
                  else ''turnon_ranges''))
          else Inl (NotImplementedError predicate_fn_name_lower))"

text \<open>\<open>_get_predicate_progress\<close>: dispatch on \<^verbatim>\<open>len(state)\<close>.  In the last branch
  the message reads \<^verbatim>\<open>state[0]\<close>, which raises \<open>IndexError\<close> on an empty atom.\<close>

fun get_predicate_progress :: "evaluator \<Rightarrow> env \<Rightarrow> string list \<Rightarrow> error + real" where
  "get_predicate_progress ev e [p, a, b] = binary_progress ev e p a b"
| "get_predicate_progress ev e [p, a] = unary_progress ev e p a"
| "get_predicate_progress ev e [] = Inl IndexError"
| "get_predicate_progress ev e (p # _) = Inl (NotImplementedError p)"

section \<open>Dense reward (\<open>_compute_dense_reward\<close>) and \<open>reward\<close>\<close>

text \<open>The loop collecting \<open>1 - progress\<close> for each goal atom; the first exception
  aborts it.\<close>

fun goal_distances :: "evaluator \<Rightarrow> env \<Rightarrow> string list list \<Rightarrow> error + real list" where
  "goal_distances ev e [] = Inr []"
| "goal_distances ev e (state # rest) =
     (case get_predicate_progress ev e state of
        Inl err \<Rightarrow> Inl err
      | Inr progress \<Rightarrow>
          (case goal_distances ev e rest of
             Inl err \<Rightarrow> Inl err
           | Inr distances \<Rightarrow> Inr ((1 - progress) # distances)))"

definition current_distance_of :: "real list \<Rightarrow> real" where
  "current_distance_of distances =
     (case distances of [] \<Rightarrow> 1 | d # ds \<Rightarrow> fold max ds d)"

text \<open>The tail of \<open>_compute_dense_reward\<close> once a previous distance exists:
  difference, scale (when \<open>reward_scale\<close> is not \<open>None\<close>), clip, snap.\<close>

definition shaped_value :: "real option \<Rightarrow> real \<Rightarrow> real \<Rightarrow> real" where
  "shaped_value scale prev current_distance =
     (let distance_diff = prev - current_distance;
          r0 = distance_diff;
          r1 = (case scale of None \<Rightarrow> r0 | Some s \<Rightarrow> r0 * (s / 1));
          r2 = np_clip r1 0 1
      in if \<bar>r2\<bar> < 1 / 1000 then 0 else r2)"

definition compute_dense_reward :: "evaluator \<Rightarrow> env \<Rightarrow> error + (real \<times> env)" where
  "compute_dense_reward ev e =
     (if goal_state (parsed_problem e) = [] then Inr (0, e)
      else
        (case goal_distances ev e (goal_state (parsed_problem e)) of
           Inl err \<Rightarrow> Inl err
         | Inr distances \<Rightarrow>
             (let current_distance = current_distance_of distances in
              case previous_distance e of
                None \<Rightarrow> Inr (0, e\<lparr>previous_distance := Some current_distance\<rparr>)
              | Some prev \<Rightarrow>
                  Inr (shaped_value (reward_scale e) prev current_distance,
                       e\<lparr>previous_distance := Some current_distance\<rparr>))))"

text \<open>\<open>reward\<close>: \<open>check_success\<close> is the task's overridable \<open>_check_success\<close>.\<close>

definition reward :: "evaluator \<Rightarrow> (env \<Rightarrow> bool) \<Rightarrow> env \<Rightarrow> error + (real \<times> env)" where
  "reward ev check_success e =
     (case (if check_success e then Inr (1, e)
            else if reward_shaping e then compute_dense_reward ev e
            else Inr (0, e)) of
        Inl err \<Rightarrow> Inl err
      | Inr (r, e') \<Rightarrow>
          Inr (case reward_scale e' of None \<Rightarrow> r | Some s \<Rightarrow> r * (s / 1), e'))"

section \<open>Placement planning (\<open>_add_placement_initializer\<close>)\<close>

text \<open>\<open>mapping_inv\<close>: every fixture and object name mapped to its category, fixtures
  first, later assignments overwriting earlier ones.\<close>

definition add_category :: "(string \<rightharpoonup> string) \<Rightarrow> string \<times> string list \<Rightarrow> (string \<rightharpoonup> string)" where
  "add_category m kv = fold (\<lambda>v acc. acc(v \<mapsto> fst kv)) (snd kv) m"

definition mapping_inv :: "parsed_problem \<Rightarrow> (string \<rightharpoonup> string)" where
  "mapping_inv pp =
     fold (\<lambda>kv acc. add_category acc kv) (objects pp)
       (fold (\<lambda>kv acc. add_category acc kv) (fixtures pp) Map.empty)"

definition is_fixture :: "env \<Rightarrow> string \<Rightarrow> bool" where
  "is_fixture e object_name = (fixtures_dict e object_name \<noteq> None)"

text \<open>The three lists of deferred atoms filled by the first loop.\<close>

record conditioned =
  conditioned_initial_place_state_on_sites :: "string list list"
  conditioned_initial_place_state_on_objects :: "string list list"
  conditioned_initial_place_state_in_objects :: "string list list"

definition new_sampler :: "sampler_class \<Rightarrow> string \<Rightarrow> string option \<Rightarrow> string option \<Rightarrow> sampler" where
  "new_sampler cls object_name ref site =
     \<lparr>sampler_class = cls, sampler_name = object_name @ ''_sampler'',
      mujoco_objects = object_name, reference = ref, site_name = site\<rparr>"

text \<open>The \<open>on(object, region)\<close> branch of the first loop.  Deferring to the site list
  ends the iteration (\<open>continue\<close>); the two sampler branches fall through to the
  property checks, which cannot match because the predicate is \<open>on\<close>.\<close>

definition on_region_branch :: "env \<Rightarrow> conditioned \<Rightarrow> string list \<Rightarrow> error + (env \<times> conditioned)" where
  "on_region_branch e c state =
     (let object_name = state ! 1; region_name = state ! 2 in
      case regions (parsed_problem e) region_name of
        None \<Rightarrow> Inl (KeyError region_name)
      | Some rg \<Rightarrow>
          (let target_name = target rg in
           if objects_dict e target_name \<noteq> None \<or> fixtures_dict e target_name \<noteq> None then
             Inr (e, c\<lparr>conditioned_initial_place_state_on_sites :=
                         conditioned_initial_place_state_on_sites c @ [state]\<rparr>)
           else if is_fixture e object_name then
             Inr (e\<lparr>placement_initializer := placement_initializer e @
                       [new_sampler MultiRegionRandomSampler object_name None None]\<rparr>, c)
           else
             (case mapping_inv (parsed_problem e) target_name of
                None \<Rightarrow> Inl (KeyError target_name)
              | Some category \<Rightarrow>
                  (case objects_dict e object_name of
                     None \<Rightarrow> Inl (KeyError object_name)
                   | Some _ \<Rightarrow>
                       Inr (e\<lparr>placement_initializer := placement_initializer e @
                                 [new_sampler
                                    (RegionSampler (problem_name (parsed_problem e)) category)
                                    object_name None None]\<rparr>, c)))))"

text \<open>The \<open>open\<close>/\<open>close\<close> and \<open>turnon\<close>/\<open>turnoff\<close> branches: a joint-value sampler
  over the matching range table is registered when the object has a state wrapper
  with \<open>set_joint\<close>.\<close>

definition joint_ranges_of :: "env \<Rightarrow> string \<Rightarrow> string \<Rightarrow> error + (obj \<times> real list)" where
  "joint_ranges_of e object_name key =
     (case get_object e object_name of
        None \<Rightarrow> Inl AttributeError
      | Some ob \<Rightarrow>
          (case object_properties ob of
             None \<Rightarrow> Inl AttributeError
           | Some props \<Rightarrow>
               (case props ''articulation'' of
                  None \<Rightarrow> Inl (KeyError ''articulation'')
                | Some art_props \<Rightarrow>
                    (case art_props key of
                       None \<Rightarrow> Inl (KeyError key)
                     | Some joint_ranges \<Rightarrow> Inr (ob, joint_ranges)))))"

definition property_branch :: "env \<Rightarrow> conditioned \<Rightarrow> string list \<Rightarrow> error + (env \<times> conditioned)" where
  "property_branch e c state =
     (let s0 = state ! 0 in
      if s0 \<in> set [''open'', ''close''] then
        (if length state < 2 then Inl IndexError
         else
           (case object_states_dict e (state ! 1) of
              None \<Rightarrow> Inr (e, c)
            | Some st \<Rightarrow>
                if \<not> has_set_joint st then Inr (e, c)
                else
                  (case joint_ranges_of e (state ! 1)
                          (if s0 = ''open'' then ''default_open_ranges''
                           else ''default_close_ranges'') of
                     Inl err \<Rightarrow> Inl err
                   | Inr (ob, joint_ranges) \<Rightarrow>
                       Inr (e\<lparr>object_property_initializers := object_property_initializers e @
                                 [OpenCloseSampler (obj_name ob) s0 joint_ranges]\<rparr>, c))))
      else if s0 \<in> set [''turnon'', ''turnoff''] then
        (if length state < 2 then Inl IndexError
         else
           (case object_states_dict e (state ! 1) of
              None \<Rightarrow> Inr (e, c)
            | Some st \<Rightarrow>
                if \<not> has_set_joint st then Inr (e, c)
                else
                  (case joint_ranges_of e (state ! 1)
                          (if s0 = ''turnon'' then ''default_turnon_ranges''
                           else ''default_turnoff_ranges'') of
                     Inl err \<Rightarrow> Inl err
                   | Inr (ob, joint_ranges) \<Rightarrow>
                       Inr (e\<lparr>object_property_initializers := object_property_initializers e @
                                 [TurnOnOffSampler (obj_name ob) s0 joint_ranges]\<rparr>, c))))
      else Inr (e, c))"

text \<open>One iteration of the loop over \<open>initial_state\<close>.  \<^verbatim>\<open>state[0]\<close> and, after a
  matching predicate name, \<^verbatim>\<open>state[2]\<close> raise \<open>IndexError\<close> on a short atom.\<close>

definition initial_state_step :: "env \<Rightarrow> conditioned \<Rightarrow> string list \<Rightarrow> error + (env \<times> conditioned)" where
  "initial_state_step e c state =
     (if state = [] then Inl IndexError
      else if state ! 0 = ''on'' \<and> length state < 3 then Inl IndexError
      else if state ! 0 = ''on'' \<and> objects_dict e (state ! 2) \<noteq> None then
        Inr (e, c\<lparr>conditioned_initial_place_state_on_objects :=
                    conditioned_initial_place_state_on_objects c @ [state]\<rparr>)
      else if state ! 0 = ''in'' \<and> length state < 3 then Inl IndexError
      else if state ! 0 = ''in'' \<and> regions (parsed_problem e) (state ! 2) \<noteq> None then
        Inr (e, c\<lparr>conditioned_initial_place_state_in_objects :=
                    conditioned_initial_place_state_in_objects c @ [state]\<rparr>)
      else if state ! 0 = ''on'' \<and> regions (parsed_problem e) (state ! 2) \<noteq> None then
        on_region_branch e c state
      else property_branch e c state)"

fun initial_state_loop :: "env \<Rightarrow> conditioned \<Rightarrow> string list list \<Rightarrow> error + (env \<times> conditioned)" where
  "initial_state_loop e c [] = Inr (e, c)"
| "initial_state_loop e c (state # rest) =
     (case initial_state_step e c state of
        Inl err \<Rightarrow> Inl err
      | Inr (e', c') \<Rightarrow> initial_state_loop e' c' rest)"

text \<open>The three loops over the deferred atoms.\<close>

fun place_on_sites :: "env \<Rightarrow> string list list \<Rightarrow> error + env" where
  "place_on_sites e [] = Inr e"
| "place_on_sites e (state # rest) =
     (let object_name = state ! 1; region_name = state ! 2 in
      case regions (parsed_problem e) region_name of
        None \<Rightarrow> Inl (KeyError region_name)
      | Some rg \<Rightarrow>
          (case object_sites_dict e region_name of
             None \<Rightarrow> Inl (KeyError region_name)
           | Some _ \<Rightarrow>
               (case objects_dict e object_name of
                  None \<Rightarrow> Inl (KeyError object_name)
                | Some _ \<Rightarrow>
                    place_on_sites
                      (e\<lparr>conditional_placement_initializer :=
                           conditional_placement_initializer e @
                           [new_sampler SiteRegionRandomSampler object_name
                              (Some (target rg)) (Some region_name)]\<rparr>)
                      rest)))"

fun place_on_objects :: "env \<Rightarrow> string list list \<Rightarrow> error + env" where
  "place_on_objects e [] = Inr e"
| "place_on_objects e (state # rest) =
     (let object_name = state ! 1; other_object_name = state ! 2 in
      case objects_dict e object_name of
        None \<Rightarrow> Inl (KeyError object_name)
      | Some _ \<Rightarrow>
          place_on_objects
            (e\<lparr>conditional_placement_on_objects_initializer :=
                 conditional_placement_on_objects_initializer e @
                 [new_sampler ObjectBasedSampler object_name (Some other_object_name) None]\<rparr>)
            rest)"

fun place_in_objects :: "env \<Rightarrow> string list list \<Rightarrow> error + env" where
  "place_in_objects e [] = Inr e"
| "place_in_objects e (state # rest) =
     (let object_name = state ! 1; region_name = state ! 2 in
      case regions (parsed_problem e) region_name of
        None \<Rightarrow> Inl (KeyError region_name)
      | Some rg \<Rightarrow>
          (case object_sites_dict e region_name of
             None \<Rightarrow> Inl (KeyError region_name)
           | Some _ \<Rightarrow>
               (case objects_dict e object_name of
                  None \<Rightarrow> Inl (KeyError object_name)
                | Some _ \<Rightarrow>
                    place_in_objects
                      (e\<lparr>conditional_placement_initializer :=
                           conditional_placement_initializer e @
                           [new_sampler InSiteRegionRandomSampler object_name
                              (Some (target rg)) (Some region_name)]\<rparr>)
                      rest)))"

definition add_placement_initializer :: "env \<Rightarrow> error + env" where
  "add_placement_initializer e =
     (case initial_state_loop e
             \<lparr>conditioned_initial_place_state_on_sites = [],
              conditioned_initial_place_state_on_objects = [],
              conditioned_initial_place_state_in_objects = []\<rparr>
             (initial_state (parsed_problem e)) of
        Inl err \<Rightarrow> Inl err
      | Inr (e1, c) \<Rightarrow>
          (case place_on_sites e1 (conditioned_initial_place_state_on_sites c) of
             Inl err \<Rightarrow> Inl err
           | Inr e2 \<Rightarrow>
               (case place_on_objects e2 (conditioned_initial_place_state_on_objects c) of
                  Inl err \<Rightarrow> Inl err
                | Inr e3 \<Rightarrow>
                    place_in_objects e3 (conditioned_initial_place_state_in_objects c))))"

text \<open>\<open>_setup_placement_initializer\<close>: three fresh composite samplers, then the
  planner.  A composite sampler is the list of its samplers in the order appended.\<close>

definition setup_placement_initializer :: "env \<Rightarrow> error + env" where
  "setup_placement_initializer e =
     add_placement_initializer
       (e\<lparr>placement_initializer := [],
          conditional_placement_initializer := [],
          conditional_placement_on_objects_initializer := []\<rparr>)"

section \<open>Episode reset (\<open>_reset_internal\<close>)\<close>

text \<open>The calls a reset makes to its external collaborators, in program order.  The
  sampled values themselves come from the external samplers and are not modelled; a
  composite sampler runs its samplers in the order they were appended.\<close>

datatype event =
    SampleProperty property_sampler
  | SetJoint string
  | Warning
  | MjStep1
  | SamplePlacement sampler
  | ApplyPlacements

fun run_property_initializers :: "env \<Rightarrow> property_sampler list \<Rightarrow> event list \<times> error option" where
  "run_property_initializers e [] = ([], None)"
| "run_property_initializers e (OtherSampler # rest) =
     (case run_property_initializers e rest of (tr, r) \<Rightarrow> (Warning # tr, r))"
| "run_property_initializers e (ps # rest) =
     (let name = (case ps of OpenCloseSampler n _ _ \<Rightarrow> n | TurnOnOffSampler n _ _ \<Rightarrow> n | OtherSampler \<Rightarrow> []) in
      case object_states_dict e name of
        None \<Rightarrow> ([SampleProperty ps], Some (KeyError name))
      | Some st \<Rightarrow>
          if \<not> has_set_joint st then ([SampleProperty ps], Some AttributeError)
          else
            (case run_property_initializers e rest of
               (tr, r) \<Rightarrow> (SampleProperty ps # SetJoint name # tr, r)))"

definition reset_internal :: "env \<Rightarrow> event list \<times> (error + env)" where
  "reset_internal e0 =
     (let e = e0\<lparr>previous_distance := None\<rparr> in
      if deterministic_reset e then ([], Inr e)
      else
        (case run_property_initializers e (object_property_initializers e) of
           (tr, Some err) \<Rightarrow> (tr, Inl err)
         | (tr, None) \<Rightarrow>
             (tr @ [MjStep1]
                @ map SamplePlacement (placement_initializer e)
                @ map SamplePlacement (conditional_placement_initializer e)
                @ map SamplePlacement (conditional_placement_on_objects_initializer e)
                @ [ApplyPlacements],
              Inr e)))"





text \<open>Field-wise concatenation of two records of deferred atoms.\<close>

definition append_deferred :: "conditioned \<Rightarrow> conditioned \<Rightarrow> conditioned" where
  "append_deferred c d =
     \<lparr>conditioned_initial_place_state_on_sites =
        conditioned_initial_place_state_on_sites c @ conditioned_initial_place_state_on_sites d,
      conditioned_initial_place_state_on_objects =
        conditioned_initial_place_state_on_objects c @
        conditioned_initial_place_state_on_objects d,
      conditioned_initial_place_state_in_objects =
        conditioned_initial_place_state_in_objects c @
        conditioned_initial_place_state_in_objects d\<rparr>"

text \<open>The environment with another list of initial-state atoms in its parsed problem.\<close>

definition with_initial_state :: "string list list \<Rightarrow> env \<Rightarrow> env" where
  "with_initial_state init e =
     e\<lparr>parsed_problem := (parsed_problem e)\<lparr>initial_state := init\<rparr>\<rparr>"

text \<open>A driver for several consecutive \<open>reward\<close> calls: each scene snapshot is
  evaluated with the previous distance left by the call before it.\<close>

fun run_rewards :: "evaluator \<Rightarrow> (env \<Rightarrow> bool) \<Rightarrow> real option \<Rightarrow> env list \<Rightarrow> error + real list" where
  "run_rewards ev check_success pd [] = Inr []"
| "run_rewards ev check_success pd (e # es) =
     (case reward ev check_success (e\<lparr>previous_distance := pd\<rparr>) of
        Inl err \<Rightarrow> Inl err
      | Inr (r, e') \<Rightarrow>
          (case run_rewards ev check_success (previous_distance e') es of
             Inl err \<Rightarrow> Inl err
           | Inr rs \<Rightarrow> Inr (r # rs)))"

section \<open>Concrete scenes\<close>

text \<open>Two evaluators, the base class's \<open>_check_success\<close> (which returns \<open>False\<close>),
  and small scenes on which the definitions above are run.\<close>

definition never :: evaluator where
  "never p args = False"

definition always :: evaluator where
  "always p args = True"

definition check_success_base :: "env \<Rightarrow> bool" where
  "check_success_base e = False"

definition door_obj :: obj where
  "door_obj =
     \<lparr>obj_name = ''door'', is_ArticulatedObject = True,
      object_properties =
        Some [''articulation'' \<mapsto>
                [''default_open_ranges'' \<mapsto> [1, 2], ''default_close_ranges'' \<mapsto> [0, 0]]]\<rparr>"

definition door_state :: "real \<Rightarrow> obj_state" where
  "door_state q =
     \<lparr>is_ObjectState = True, geom_pos = (0, 0, 0), joint_state = [q], has_set_joint = True\<rparr>"

definition cube_obj :: "string \<Rightarrow> obj" where
  "cube_obj n = \<lparr>obj_name = n, is_ArticulatedObject = False, object_properties = None\<rparr>"

definition cube_state :: obj_state where
  "cube_state =
     \<lparr>is_ObjectState = True, geom_pos = (0, 0, 0), joint_state = [], has_set_joint = False\<rparr>"

text \<open>A cabinet door (a fixture) with joint position \<open>q\<close>; the goal is to open it.\<close>

definition door_env :: "real option \<Rightarrow> real option \<Rightarrow> bool \<Rightarrow> real \<Rightarrow> env" where
  "door_env scale pd shaping q =
     \<lparr>reward_scale = scale, reward_shaping = shaping,
      parsed_problem =
        \<lparr>problem_name = ''demo'', fixtures = [(''cabinet'', [''door''])], objects = [],
         regions = Map.empty, initial_state = [[''close'', ''door'']],
         goal_state = [[''open'', ''door'']]\<rparr>,
      objects_dict = Map.empty, fixtures_dict = [''door'' \<mapsto> door_obj],
      object_sites_dict = Map.empty, object_states_dict = [''door'' \<mapsto> door_state q],
      previous_distance = pd, placement_initializer = [],
      conditional_placement_initializer = [],
      conditional_placement_on_objects_initializer = [],
      object_property_initializers = [], deterministic_reset = False\<rparr>"

text \<open>Two cubes \<open>a\<close> and \<open>b\<close>, the door, and a free-standing region on the table;
  the initial state is a parameter.\<close>

definition cubes_env :: "string list list \<Rightarrow> env" where
  "cubes_env init =
     \<lparr>reward_scale = Some 1, reward_shaping = True,
      parsed_problem =
        \<lparr>problem_name = ''demo'',
         fixtures = [(''table'', [''main_table'']), (''cabinet'', [''door''])],
         objects = [(''cube'', [''a'', ''b''])],
         regions = [''table_region'' \<mapsto>
                      \<lparr>target = ''main_table'', ranges = [[0, 0, 1, 1]], yaw_rotation = [0, 0]\<rparr>],
         initial_state = init,
         goal_state = [[''on'', ''a'', ''b'']]\<rparr>,
      objects_dict = [''a'' \<mapsto> cube_obj ''a'', ''b'' \<mapsto> cube_obj ''b''],
      fixtures_dict = [''door'' \<mapsto> door_obj],
      object_sites_dict = Map.empty,
      object_states_dict =
        [''a'' \<mapsto> cube_state, ''b'' \<mapsto> cube_state, ''door'' \<mapsto> door_state 0],
      previous_distance = None, placement_initializer = [],
      conditional_placement_initializer = [],
      conditional_placement_on_objects_initializer = [],
      object_property_initializers = [], deterministic_reset = False\<rparr>"

definition cyclic_env :: env where
  "cyclic_env = cubes_env [[''on'', ''a'', ''b''], [''on'', ''b'', ''a'']]"

text \<open>Four cubes, the door with a site \<open>door_top\<close> on it, and the free-standing
  region on the table; the initial state is a parameter.\<close>

definition site_obj :: "string \<Rightarrow> obj" where
  "site_obj n = \<lparr>obj_name = n, is_ArticulatedObject = False, object_properties = None\<rparr>"

definition kitchen_env :: "string list list \<Rightarrow> env" where
  "kitchen_env init =
     \<lparr>reward_scale = Some 1, reward_shaping = True,
      parsed_problem =
        \<lparr>problem_name = ''demo'',
         fixtures = [(''table'', [''main_table'']), (''cabinet'', [''door''])],
         objects = [(''cube'', [''a'', ''b'', ''c'', ''d''])],
         regions = [''table_region'' \<mapsto>
                      \<lparr>target = ''main_table'', ranges = [[0, 0, 1, 1]], yaw_rotation = [0, 0]\<rparr>,
                    ''door_top'' \<mapsto>
                      \<lparr>target = ''door'', ranges = [[0, 0, 1, 1]], yaw_rotation = [0, 0]\<rparr>],
         initial_state = init,
         goal_state = [[''on'', ''a'', ''b'']]\<rparr>,
      objects_dict = [''a'' \<mapsto> cube_obj ''a'', ''b'' \<mapsto> cube_obj ''b'',
                      ''c'' \<mapsto> cube_obj ''c'', ''d'' \<mapsto> cube_obj ''d''],
      fixtures_dict = [''door'' \<mapsto> door_obj],
      object_sites_dict = [''door_top'' \<mapsto> site_obj ''door_top''],
      object_states_dict =
        [''a'' \<mapsto> cube_state, ''b'' \<mapsto> cube_state, ''c'' \<mapsto> cube_state,
         ''d'' \<mapsto> cube_state, ''door'' \<mapsto> door_state 0],
      previous_distance = None, placement_initializer = [],
      conditional_placement_initializer = [],
      conditional_placement_on_objects_initializer = [],
      object_property_initializers = [], deterministic_reset = False\<rparr>"





text \<open>A cyclic pair among other atoms, and one followed by a malformed atom.\<close>

definition mixed_cyclic_env :: env where
  "mixed_cyclic_env =
     kitchen_env [[''on'', ''c'', ''table_region''], [''on'', ''a'', ''b''],
                  [''close'', ''door''], [''on'', ''b'', ''a'']]"

definition mixed_cyclic_built :: env where
  "mixed_cyclic_built =
     mixed_cyclic_env\<lparr>placement_initializer :=
                  [new_sampler (RegionSampler ''demo'' ''table'') ''c'' None None],
                conditional_placement_on_objects_initializer :=
                  [new_sampler ObjectBasedSampler ''a'' (Some ''b'') None,
                   new_sampler ObjectBasedSampler ''b'' (Some ''a'') None],
                object_property_initializers := [OpenCloseSampler ''door'' ''close'' [0, 0]]\<rparr>"

definition broken_cyclic_env :: env where
  "broken_cyclic_env =
     kitchen_env [[''on'', ''a'', ''b''], [''on'', ''b'', ''a''], [''open'']]"

text \<open>A task-specific success check: the door's first joint has reached the open range.\<close>

definition door_is_open :: "env \<Rightarrow> bool" where
  "door_is_open e =
     (case object_states_dict e ''door'' of
        None \<Rightarrow> False
      | Some st \<Rightarrow> (case joint_state st of [] \<Rightarrow> False | q # _ \<Rightarrow> 1 \<le> q))"


section \<open>Dense reward: properties\<close>

subsection \<open>The stored previous distance does not influence progress\<close>

lemma get_object_previous_distance [simp]:
  "get_object (e\<lparr>previous_distance := pd\<rparr>) n = get_object e n"
  by (simp add: get_object_def split: option.splits)

lemma articulated_progress_previous_distance [simp]:
  "articulated_progress (e\<lparr>previous_distance := pd\<rparr>) n st k1 k2 = articulated_progress e n st k1 k2"
  by (simp add: articulated_progress_def cong: option.case_cong list.case_cong)

lemma binary_progress_previous_distance [simp]:
  "binary_progress ev (e\<lparr>previous_distance := pd\<rparr>) p a b = binary_progress ev e p a b"
  by (simp add: binary_progress_def cong: option.case_cong)

lemma unary_progress_previous_distance [simp]:
  "unary_progress ev (e\<lparr>previous_distance := pd\<rparr>) p a = unary_progress ev e p a"
  by (simp add: unary_progress_def Let_def cong: option.case_cong if_cong)

lemma get_predicate_progress_previous_distance [simp]:
  "get_predicate_progress ev (e\<lparr>previous_distance := pd\<rparr>) state = get_predicate_progress ev e state"
  by (induction ev e state rule: get_predicate_progress.induct) simp_all

lemma goal_distances_previous_distance [simp]:
  "goal_distances ev (e\<lparr>previous_distance := pd\<rparr>) gs = goal_distances ev e gs"
  by (induction gs) (simp_all cong: sum.case_cong)

subsection \<open>The shaped value\<close>

lemma shaped_value_same [simp]: "shaped_value scale d d = 0"
  by (simp add: shaped_value_def np_clip_def split: option.splits)

lemma np_clip_bounds: "0 \<le> np_clip x 0 1 \<and> np_clip x 0 1 \<le> 1"
  by (simp add: np_clip_def)

lemma shaped_value_nonneg: "0 \<le> shaped_value scale p c"
  using np_clip_bounds by (simp add: shaped_value_def Let_def split: option.splits)

lemma shaped_value_le_one: "shaped_value scale p c \<le> 1"
  using np_clip_bounds by (simp add: shaped_value_def Let_def split: option.splits)

lemma shaped_value_unscaled:
  "scale = None \<or> scale = Some 1 \<Longrightarrow>
   shaped_value scale p c = (let r = np_clip (p - c) 0 1 in if \<bar>r\<bar> < 1 / 1000 then 0 else r)"
  by (auto simp add: shaped_value_def Let_def)

subsection \<open>The door scene\<close>

lemma door_progress_gen:
  "0 \<le> q \<Longrightarrow> q \<le> 1 \<Longrightarrow>
   get_predicate_progress never (door_env s pd sh q) [''open'', ''door''] = Inr q"
  by (simp add: unary_progress_def never_def door_env_def lower_def lower_char_def
        articulated_progress_def get_object_def door_obj_def door_state_def
        range_progress_def np_clip_def)

lemma door_progress: "get_predicate_progress never (door_env s pd sh (1/2)) [''open'', ''door''] = Inr (1/2)"
  by (rule door_progress_gen) simp_all

lemma door_distances_gen:
  "0 \<le> q \<Longrightarrow> q \<le> 1 \<Longrightarrow>
   goal_distances never (door_env s pd sh q) [[''open'', ''door'']] = Inr [1 - q]"
  by (simp add: door_progress_gen del: get_predicate_progress.simps)

lemma door_goal: "goal_state (parsed_problem (door_env s pd sh q)) = [[''open'', ''door'']]"
  by (simp add: door_env_def)

lemma door_upd: "(door_env s pd sh q)\<lparr>previous_distance := pd'\<rparr> = door_env s pd' sh q"
  by (simp add: door_env_def)

lemma door_sel: "previous_distance (door_env s pd sh q) = pd" "reward_scale (door_env s pd sh q) = s"
  "reward_shaping (door_env s pd sh q) = sh"
  by (simp_all add: door_env_def)

lemma door_distances: "goal_distances never (door_env s pd sh (1/2)) [[''open'', ''door'']] = Inr [1/2]"
  by (simp add: door_progress del: get_predicate_progress.simps)

lemma door_dense:
  "compute_dense_reward never (door_env (Some 2) (Some (3/4)) True (1/2)) =
     Inr (1/2, door_env (Some 2) (Some (1/2)) True (1/2))"
  by (simp add: compute_dense_reward_def door_goal door_upd door_sel door_distances
        current_distance_of_def shaped_value_def np_clip_def Let_def del: goal_distances.simps)

text \<open>
  Claim C7.  The claim: on every call after the first, the dense reward is the distance
  decrease \<open>previous - current\<close> clipped to \<open>[0, 1]\<close> and snapped to \<open>0\<close> below
  \<open>1e-3\<close>.  The code multiplies the decrease by \<open>reward_scale\<close> before clipping.  With
  \<open>reward_scale = 2\<close>, previous distance \<open>0.75\<close> and current distance \<open>0.5\<close> the
  call returns \<open>0.5\<close>, where the clipped decrease is \<open>0.25\<close>.
\<close>

theorem dense_reward_scaled_before_clip:
  "compute_dense_reward never (door_env (Some 2) (Some (3/4)) True (1/2)) =
     Inr (1/2, door_env (Some 2) (Some (1/2)) True (1/2)) \<and>
   np_clip (3/4 - 1/2) 0 1 = 1/4"
  by (simp add: door_dense np_clip_def)

text \<open>
  Claim C1.  The claim: the dense value is returned pre-scale and the scale is applied
  exactly once, by \<open>reward\<close>, so the final dense reward is the clipped, denoised
  decrease times the scale.  The code scales inside \<open>_compute_dense_reward\<close> before the
  clip and again in \<open>reward\<close>.  With \<open>reward_scale = 2\<close>, previous distance \<open>0.75\<close>
  and current distance \<open>0.5\<close>, \<open>reward\<close> returns \<open>1\<close>, where the clipped decrease
  times the scale is \<open>0.5\<close>.
\<close>

theorem reward_scaled_twice:
  "reward never check_success_base (door_env (Some 2) (Some (3/4)) True (1/2)) =
     Inr (1, door_env (Some 2) (Some (1/2)) True (1/2)) \<and>
   np_clip (3/4 - 1/2) 0 1 * 2 = 1/2"
  by (simp add: reward_def compute_dense_reward_def door_goal door_upd door_sel door_distances
        current_distance_of_def shaped_value_def np_clip_def Let_def check_success_base_def
        del: goal_distances.simps)

subsection \<open>Repeated calls\<close>

text \<open>
  Claim C6.  For a non-empty goal list whose atoms all evaluate, a dense-reward call
  returns, and a second call on the environment it leaves behind (the scene unchanged,
  the previous distance as stored by the first call) returns exactly \<open>0\<close> and leaves
  the environment as it is.
\<close>

theorem dense_reward_twice_unchanged_scene:
  assumes "goal_state (parsed_problem e) \<noteq> []"
    and "goal_distances ev e (goal_state (parsed_problem e)) = Inr ds"
  shows "\<exists>r1 e1. compute_dense_reward ev e = Inr (r1, e1) \<and>
                  compute_dense_reward ev e1 = Inr (0, e1)"
proof -
  let ?c = "current_distance_of ds"
  let ?e1 = "e\<lparr>previous_distance := Some ?c\<rparr>"
  obtain r1 where 1: "compute_dense_reward ev e = Inr (r1, ?e1)"
    using assms by (cases "previous_distance e") (simp_all add: compute_dense_reward_def Let_def)
  have 2: "compute_dense_reward ev ?e1 = Inr (0, ?e1)"
    using assms by (simp add: compute_dense_reward_def Let_def)
  show ?thesis using 1 2 by blast
qed

theorem dense_reward_twice_unchanged_scene_witness:
  "goal_state (parsed_problem (door_env (Some 2) (Some (3/4)) True (1/2))) \<noteq> [] \<and>
   compute_dense_reward never (door_env (Some 2) (Some (1/2)) True (1/2)) =
     Inr (0, door_env (Some 2) (Some (1/2)) True (1/2))"
  using dense_reward_twice_unchanged_scene
          [of "door_env (Some 2) (Some (3/4)) True (1/2)" never "[1/2]"]
  by (simp add: door_goal door_distances door_dense del: goal_distances.simps)

subsection \<open>First call after a reset\<close>

text \<open>
  Claim C5.  A reset that completes leaves no previous distance.  A dense-reward call
  made without a previous distance returns exactly \<open>0\<close> whatever the progress of
  the goal atoms is; when the goal list is non-empty it stores the current distance as
  the previous one (an empty goal list returns \<open>0\<close> before anything is stored).
\<close>

theorem first_dense_reward_after_reset_is_zero:
  "(\<forall>e'. snd (reset_internal e0) = Inr e' \<longrightarrow> previous_distance e' = None) \<and>
   (previous_distance e = None \<and>
    goal_distances ev e (goal_state (parsed_problem e)) = Inr ds \<longrightarrow>
      compute_dense_reward ev e =
        Inr (0, if goal_state (parsed_problem e) = [] then e
                else e\<lparr>previous_distance := Some (current_distance_of ds)\<rparr>))"
  by (auto simp add: reset_internal_def compute_dense_reward_def Let_def
           split: prod.splits option.splits)

theorem first_dense_reward_after_reset_is_zero_witness:
  "snd (reset_internal (door_env (Some 2) (Some (3/4)) True (1/2))) =
     Inr (door_env (Some 2) None True (1/2)) \<and>
   previous_distance (door_env (Some 2) None True (1/2)) = None \<and>
   goal_distances never (door_env (Some 2) None True (1/2))
     (goal_state (parsed_problem (door_env (Some 2) None True (1/2)))) = Inr [1/2] \<and>
   compute_dense_reward never (door_env (Some 2) None True (1/2)) =
     Inr (0, door_env (Some 2) (Some (1/2)) True (1/2))"
proof -
  have r: "snd (reset_internal (door_env (Some 2) (Some (3/4)) True (1/2))) =
     Inr (door_env (Some 2) None True (1/2))"
    by (simp add: reset_internal_def door_env_def)
  show ?thesis
    using first_dense_reward_after_reset_is_zero
            [of "door_env (Some 2) (Some (3/4)) True (1/2)"
                "door_env (Some 2) None True (1/2)" never "[1/2]"] r
    by (simp add: door_goal door_sel door_upd door_distances current_distance_of_def
          del: goal_distances.simps)
qed

subsection \<open>Steps on which the dense branch does not run\<close>

text \<open>
  Claim C10.  When the success check holds or reward shaping is disabled, \<open>reward\<close>
  returns with the environment unchanged, so the stored previous distance is kept.
  Consequently, over three consecutive steps of which only the first and the third
  run the dense branch, the third reward is computed from the distance of the first
  step, not from that of the second.  The success check is assumed not to read the
  stored previous distance.
\<close>

theorem reward_without_dense_keeps_previous_distance:
  assumes skip: "check_success e2 \<or> \<not> reward_shaping e2"
    and d1: "\<not> check_success e1" "reward_shaping e1" "goal_state (parsed_problem e1) \<noteq> []"
            "goal_distances ev e1 (goal_state (parsed_problem e1)) = Inr ds1"
    and d3: "\<not> check_success e3" "reward_shaping e3" "goal_state (parsed_problem e3) \<noteq> []"
            "goal_distances ev e3 (goal_state (parsed_problem e3)) = Inr ds3"
    and cs: "\<And>x pd. check_success (x\<lparr>previous_distance := pd\<rparr>) = check_success x"
  shows "(\<exists>r. reward ev check_success e2 = Inr (r, e2)) \<and>
         (\<exists>r1 r2. run_rewards ev check_success pd [e1, e2, e3] =
            Inr [r1, r2,
                 (let v = shaped_value (reward_scale e3) (current_distance_of ds1)
                            (current_distance_of ds3)
                  in case reward_scale e3 of None \<Rightarrow> v | Some s \<Rightarrow> v * (s / 1))])"
proof
  show "\<exists>r. reward ev check_success e2 = Inr (r, e2)"
    using skip by (auto simp add: reward_def)
next
  have r1: "\<exists>r. reward ev check_success (e1\<lparr>previous_distance := pd\<rparr>) =
      Inr (r, e1\<lparr>previous_distance := Some (current_distance_of ds1)\<rparr>)"
    using d1 by (cases pd) (simp_all add: reward_def compute_dense_reward_def cs Let_def)
  have r2: "\<exists>r. reward ev check_success (e2\<lparr>previous_distance := Some (current_distance_of ds1)\<rparr>) =
      Inr (r, e2\<lparr>previous_distance := Some (current_distance_of ds1)\<rparr>)"
    using skip by (auto simp add: reward_def cs)
  have r3: "reward ev check_success (e3\<lparr>previous_distance := Some (current_distance_of ds1)\<rparr>) =
      Inr ((let v = shaped_value (reward_scale e3) (current_distance_of ds1)
                            (current_distance_of ds3)
            in case reward_scale e3 of None \<Rightarrow> v | Some s \<Rightarrow> v * (s / 1)),
           e3\<lparr>previous_distance := Some (current_distance_of ds3)\<rparr>)"
    using d3 by (simp add: reward_def compute_dense_reward_def cs Let_def)
  from r1 r2 r3 show "\<exists>r1 r2. run_rewards ev check_success pd [e1, e2, e3] =
            Inr [r1, r2,
                 (let v = shaped_value (reward_scale e3) (current_distance_of ds1)
                            (current_distance_of ds3)
                  in case reward_scale e3 of None \<Rightarrow> v | Some s \<Rightarrow> v * (s / 1))]"
    by (auto simp del: shaped_value_same)
qed

lemma door_is_open_previous_distance:
  "door_is_open (x\<lparr>previous_distance := pd\<rparr>) = door_is_open x"
  by (simp add: door_is_open_def)

lemma door_is_open_door_env: "door_is_open (door_env s pd sh q) = (1 \<le> q)"
  by (simp add: door_is_open_def door_env_def door_state_def)

theorem reward_without_dense_keeps_previous_distance_witness:
  "(door_is_open (door_env (Some 1) None True 1) \<or>
      \<not> reward_shaping (door_env (Some 1) None True 1)) \<and>
   \<not> door_is_open (door_env (Some 1) None True (1/2)) \<and>
   \<not> door_is_open (door_env (Some 1) None True (3/4)) \<and>
   (\<exists>r. reward never door_is_open (door_env (Some 1) None True 1) =
          Inr (r, door_env (Some 1) None True 1)) \<and>
   (\<exists>r1 r2. run_rewards never door_is_open None
      [door_env (Some 1) None True (1/2), door_env (Some 1) None True 1,
       door_env (Some 1) None True (3/4)] = Inr [r1, r2, 1/4])"
proof -
  have d1: "goal_distances never (door_env (Some 1) None True (1/2))
              (goal_state (parsed_problem (door_env (Some 1) None True (1/2)))) = Inr [1/2]"
    using door_distances_gen[of "1/2" "Some 1" None True] by (simp add: door_goal)
  have d3: "goal_distances never (door_env (Some 1) None True (3/4))
              (goal_state (parsed_problem (door_env (Some 1) None True (3/4)))) = Inr [1/4]"
    using door_distances_gen[of "3/4" "Some 1" None True] by (simp add: door_goal)
  have sv: "shaped_value (Some 1) (1/2) (1/4) = 1/4"
    by (simp add: shaped_value_def np_clip_def)
  show ?thesis
    using reward_without_dense_keeps_previous_distance
            [of door_is_open "door_env (Some 1) None True 1"
                "door_env (Some 1) None True (1/2)" never "[1/2]"
                "door_env (Some 1) None True (3/4)" "[1/4]" None,
             OF _ _ _ _ d1 _ _ _ d3 door_is_open_previous_distance]
    by (simp add: door_is_open_door_env door_sel door_goal current_distance_of_def sv
          del: goal_distances.simps run_rewards.simps)
qed

section \<open>Predicate progress: properties\<close>

subsection \<open>Satisfied atoms\<close>

text \<open>
  Claim C3.  For a binary atom \<open>[p, a, b]\<close> and for a unary atom \<open>[q, c]\<close> whose
  argument names resolve to object states, if the external evaluator reports the
  predicate satisfied on those states, the progress is exactly \<open>1\<close>; no geometry or
  joint score is computed.
\<close>

theorem progress_of_satisfied_atom_is_one:
  "(object_states_dict e a = Some o1 \<and> object_states_dict e b = Some o2 \<and> ev p [o1, o2]
      \<longrightarrow> get_predicate_progress ev e [p, a, b] = Inr 1) \<and>
   (object_states_dict e c = Some o3 \<and> ev q [o3]
      \<longrightarrow> get_predicate_progress ev e [q, c] = Inr 1)"
  by (simp add: binary_progress_def unary_progress_def Let_def)

lemma cubes_states:
  "object_states_dict (cubes_env init) ''a'' = Some cube_state"
  "object_states_dict (cubes_env init) ''b'' = Some cube_state"
  "object_states_dict (cubes_env init) ''door'' = Some (door_state 0)"
  by (simp_all add: cubes_env_def)

theorem progress_of_satisfied_atom_is_one_witness:
  "object_states_dict cyclic_env ''a'' = Some cube_state \<and>
   object_states_dict cyclic_env ''b'' = Some cube_state \<and>
   always ''on'' [cube_state, cube_state] \<and>
   get_predicate_progress always cyclic_env [''on'', ''a'', ''b''] = Inr 1 \<and>
   object_states_dict cyclic_env ''door'' = Some (door_state 0) \<and>
   always ''open'' [door_state 0] \<and>
   get_predicate_progress always cyclic_env [''open'', ''door''] = Inr 1"
  using progress_of_satisfied_atom_is_one
          [of cyclic_env "''a''" cube_state "''b''" cube_state always "''on''"
              "''door''" "door_state 0" "''open''"]
  by (simp add: cyclic_env_def cubes_states always_def del: get_predicate_progress.simps)

subsection \<open>Range of the progress value\<close>

lemma range_progress_bounds:
  "range_progress q t opp = Inr v \<Longrightarrow> 0 \<le> v \<and> v \<le> 1"
  using np_clip_bounds
  by (auto simp add: range_progress_def Let_def split: sum.splits)

lemma range_progress_defined:
  "t \<noteq> [] \<Longrightarrow> opp \<noteq> [] \<Longrightarrow> \<exists>v. range_progress q t opp = Inr v"
  by (cases t; cases opp) (simp_all add: range_progress_def Let_def)

lemma articulated_progress_bounds:
  "articulated_progress e n st k1 k2 = Inr v \<Longrightarrow> 0 \<le> v \<and> v \<le> 1"
  using range_progress_bounds
  by (auto simp add: articulated_progress_def split: option.splits if_splits list.splits)

lemma binary_progress_bounds:
  "binary_progress ev e p a b = Inr v \<Longrightarrow> 0 \<le> v \<and> v \<le> 1"
  by (auto simp add: binary_progress_def Let_def split: option.splits if_splits prod.splits)

lemma unary_progress_bounds:
  "unary_progress ev e p a = Inr v \<Longrightarrow> 0 \<le> v \<and> v \<le> 1"
  using articulated_progress_bounds
  by (auto simp add: unary_progress_def Let_def split: option.splits if_splits)

lemma get_predicate_progress_bounds:
  "get_predicate_progress ev e state = Inr v \<Longrightarrow> 0 \<le> v \<and> v \<le> 1"
  using binary_progress_bounds unary_progress_bounds
  by (induction ev e state rule: get_predicate_progress.induct) auto

lemma binary_progress_defined:
  "lower p \<in> {''on'', ''in''} \<Longrightarrow> object_states_dict e a \<noteq> None \<Longrightarrow>
   object_states_dict e b \<noteq> None \<Longrightarrow> \<exists>w. binary_progress ev e p a b = Inr w"
  by (auto simp add: binary_progress_def Let_def split: prod.splits)

lemma articulated_progress_defined:
  assumes ne: "\<forall>ob props art k r. get_object e a = Some ob \<and> object_properties ob = Some props \<and>
             props ''articulation'' = Some art \<and> art k = Some r \<longrightarrow> r \<noteq> []"
  shows "\<exists>w. articulated_progress e a st k1 k2 = Inr w"
proof (cases "get_object e a")
  case None
  then show ?thesis by (simp add: articulated_progress_def)
next
  case ob: (Some ob)
  show ?thesis
  proof (cases "object_properties ob")
    case None
    with ob show ?thesis by (simp add: articulated_progress_def split: list.splits)
  next
    case props: (Some props)
    show ?thesis
    proof (cases "props ''articulation''")
      case None
      with ob props show ?thesis by (simp add: articulated_progress_def split: list.splits)
    next
      case art: (Some art)
      show ?thesis
      proof (cases "art k1")
        case None
        with ob props art show ?thesis
          by (simp add: articulated_progress_def split: list.splits)
      next
        case t: (Some t)
        show ?thesis
        proof (cases "art k2")
          case None
          with ob props art t show ?thesis
            by (simp add: articulated_progress_def split: list.splits)
        next
          case opp: (Some opp)
          have "t \<noteq> []" "opp \<noteq> []"
            using ne ob props art t opp by blast+
          then have "\<exists>w. range_progress q t opp = Inr w" for q
            by (rule range_progress_defined)
          with ob props art t opp show ?thesis
            by (simp add: articulated_progress_def split: list.splits)
        qed
      qed
    qed
  qed
qed

lemma unary_progress_defined:
  assumes "lower p \<in> {''open'', ''close'', ''turnon'', ''turnoff''}"
    and "object_states_dict e a \<noteq> None"
    and "\<forall>ob props art k r. get_object e a = Some ob \<and> object_properties ob = Some props \<and>
             props ''articulation'' = Some art \<and> art k = Some r \<longrightarrow> r \<noteq> []"
  shows "\<exists>w. unary_progress ev e p a = Inr w"
  using assms(1,2) articulated_progress_defined[OF assms(3)]
  by (auto simp add: unary_progress_def Let_def)

text \<open>
  Claim C4.  Whenever the progress function returns a value, the value lies in
  \<open>[0, 1]\<close>.  It does return a value for every binary \<open>on\<close>/\<open>in\<close> atom whose
  two names resolve, and for every unary \<open>open\<close>/\<open>close\<close>/\<open>turnon\<close>/\<open>turnoff\<close>
  atom whose name resolves and whose object has no empty range table (\<open>min\<close> and
  \<open>max\<close> of an empty table raise).
\<close>

theorem progress_in_unit_interval:
  "(get_predicate_progress ev e state = Inr v \<longrightarrow> 0 \<le> v \<and> v \<le> 1) \<and>
   (lower p2 \<in> {''on'', ''in''} \<and> object_states_dict e a \<noteq> None \<and>
    object_states_dict e b \<noteq> None
      \<longrightarrow> (\<exists>w. get_predicate_progress ev e [p2, a, b] = Inr w)) \<and>
   (lower p1 \<in> {''open'', ''close'', ''turnon'', ''turnoff''} \<and>
    object_states_dict e c \<noteq> None \<and>
    (\<forall>ob props art k r. get_object e c = Some ob \<and> object_properties ob = Some props \<and>
        props ''articulation'' = Some art \<and> art k = Some r \<longrightarrow> r \<noteq> [])
      \<longrightarrow> (\<exists>w. get_predicate_progress ev e [p1, c] = Inr w))"
proof (intro conjI impI)
  assume "get_predicate_progress ev e state = Inr v"
  then show "0 \<le> v" "v \<le> 1"
    using get_predicate_progress_bounds by blast+
next
  assume "lower p2 \<in> {''on'', ''in''} \<and> object_states_dict e a \<noteq> None \<and>
    object_states_dict e b \<noteq> None"
  then have "\<exists>w. binary_progress ev e p2 a b = Inr w"
    using binary_progress_defined by blast
  then show "\<exists>w. get_predicate_progress ev e [p2, a, b] = Inr w"
    by simp
next
  assume h: "lower p1 \<in> {''open'', ''close'', ''turnon'', ''turnoff''} \<and>
    object_states_dict e c \<noteq> None \<and>
    (\<forall>ob props art k r. get_object e c = Some ob \<and> object_properties ob = Some props \<and>
        props ''articulation'' = Some art \<and> art k = Some r \<longrightarrow> r \<noteq> [])"
  have "\<exists>w. unary_progress ev e p1 c = Inr w"
    by (rule unary_progress_defined) (use h in blast)+
  then show "\<exists>w. get_predicate_progress ev e [p1, c] = Inr w"
    by simp
qed


subsection \<open>Monotonicity of \<open>open\<close>\<close>

lemma fold_min_le: "fold min xs (x::real) \<le> x"
proof (induction xs arbitrary: x)
  case Nil
  show ?case by simp
next
  case (Cons y ys)
  have "fold min ys (min y x) \<le> min y x" by (rule Cons.IH)
  then show ?case by simp
qed

lemma fold_max_ge: "(x::real) \<le> fold max xs x"
proof (induction xs arbitrary: x)
  case Nil
  show ?case by simp
next
  case (Cons y ys)
  have "max y x \<le> fold max ys (max y x)" by (rule Cons.IH)
  then show ?case by simp
qed

lemma py_min_le_py_max:
  assumes "py_min xs = Inr lo" and "py_max xs = Inr hi"
  shows "lo \<le> hi"
proof (cases xs)
  case Nil
  with assms show ?thesis by simp
next
  case (Cons x rest)
  with assms have "lo = fold min rest x" "hi = fold max rest x" by simp_all
  then show ?thesis
    using fold_min_le[of rest x] fold_max_ge[of x rest] by linarith
qed

lemma np_clip_mono: "x \<le> y \<Longrightarrow> np_clip x 0 1 \<le> np_clip y 0 1"
  by (simp add: np_clip_def min_def max_def)

lemma range_progress_mono:
  assumes t: "py_min t = Inr tmin" "py_max t = Inr tmax"
    and o: "py_min opp = Inr omin" "py_max opp = Inr omax"
    and dir: "(tmax < omin \<and> q2 \<le> q1) \<or> (omax < tmin \<and> q1 \<le> q2)"
  shows "\<exists>v1 v2. range_progress q1 t opp = Inr v1 \<and> range_progress q2 t opp = Inr v2 \<and> v1 \<le> v2"
proof -
  have le: "tmin \<le> tmax" "omin \<le> omax"
    using t o py_min_le_py_max by blast+
  from dir show ?thesis
  proof
    assume c1: "tmax < omin \<and> q2 \<le> q1"
    show ?thesis
    proof (cases "omax - tmax > 1 / 1000000")
      case True
      then have "(omax - q1) / (omax - tmax) \<le> (omax - q2) / (omax - tmax)"
        using c1 by (simp add: divide_right_mono)
      then have "np_clip ((omax - q1) / (omax - tmax)) 0 1
                   \<le> np_clip ((omax - q2) / (omax - tmax)) 0 1"
        by (rule np_clip_mono)
      with True c1 show ?thesis
        by (simp add: range_progress_def t o Let_def)
    next
      case False
      with c1 show ?thesis
        by (simp add: range_progress_def t o Let_def)
    qed
  next
    assume c2: "omax < tmin \<and> q1 \<le> q2"
    with le have n1: "\<not> tmax < omin" by linarith
    show ?thesis
    proof (cases "tmin - omax > 1 / 1000000")
      case True
      then have "(q1 - omax) / (tmin - omax) \<le> (q2 - omax) / (tmin - omax)"
        using c2 by (simp add: divide_right_mono)
      then have "np_clip ((q1 - omax) / (tmin - omax)) 0 1
                   \<le> np_clip ((q2 - omax) / (tmin - omax)) 0 1"
        by (rule np_clip_mono)
      with True c2 n1 show ?thesis
        by (simp add: range_progress_def t o Let_def)
    next
      case False
      with c2 n1 show ?thesis
        by (simp add: range_progress_def t o Let_def)
    qed
  qed
qed

lemma get_object_object_states_dict [simp]:
  "get_object (e\<lparr>object_states_dict := m\<rparr>) n = get_object e n"
  by (simp add: get_object_def split: option.splits)

lemma articulated_progress_tables:
  assumes "get_object e a = Some ob" "object_properties ob = Some props"
    "props ''articulation'' = Some art" "art k1 = Some tgt" "art k2 = Some opp"
  shows "articulated_progress (e\<lparr>object_states_dict := m\<rparr>) a (st\<lparr>joint_state := q # js\<rparr>) k1 k2 =
           (if \<not> is_ObjectState st \<or> \<not> is_ArticulatedObject ob then Inr 0
            else range_progress q tgt opp)"
  using assms by (simp add: articulated_progress_def)

lemma lower_open [simp]: "lower ''open'' = ''open''"
  by (simp add: lower_def lower_char_def)

lemma unary_open_unfold:
  "unary_progress ev (e\<lparr>object_states_dict := (object_states_dict e)(a \<mapsto> s)\<rparr>) ''open'' a =
     (if ev ''open'' [s] then Inr 1
      else articulated_progress (e\<lparr>object_states_dict := (object_states_dict e)(a \<mapsto> s)\<rparr>) a s
             ''default_open_ranges'' ''default_close_ranges'')"
  by (simp add: unary_progress_def Let_def)

text \<open>
  Claim C8.  Let an object have the range tables \<open>default_open_ranges\<close> (target) and
  \<open>default_close_ranges\<close> (opposite), disjoint in one of the two orders, and let its
  first joint position move from \<open>q1\<close> to \<open>q2\<close> in the direction of the target
  (downwards when the target lies below the opposite table, upwards when it lies
  above), everything else unchanged.  If the external evaluator does not withdraw
  satisfaction along that move, the progress of \<open>open\<close> at \<open>q1\<close> is at most the
  progress at \<open>q2\<close>.
\<close>

theorem open_progress_monotone:
  assumes ob: "get_object e a = Some ob" "object_properties ob = Some props"
      "props ''articulation'' = Some art"
      "art ''default_open_ranges'' = Some tgt" "art ''default_close_ranges'' = Some opp"
    and ext: "py_min tgt = Inr tmin" "py_max tgt = Inr tmax"
      "py_min opp = Inr omin" "py_max opp = Inr omax"
    and dir: "(tmax < omin \<and> q2 \<le> q1) \<or> (omax < tmin \<and> q1 \<le> q2)"
    and evm: "ev ''open'' [st\<lparr>joint_state := q1 # js\<rparr>] \<longrightarrow>
              ev ''open'' [st\<lparr>joint_state := q2 # js\<rparr>]"
  shows "\<exists>v1 v2.
     get_predicate_progress ev
       (e\<lparr>object_states_dict := (object_states_dict e)(a \<mapsto> st\<lparr>joint_state := q1 # js\<rparr>)\<rparr>)
       [''open'', a] = Inr v1 \<and>
     get_predicate_progress ev
       (e\<lparr>object_states_dict := (object_states_dict e)(a \<mapsto> st\<lparr>joint_state := q2 # js\<rparr>)\<rparr>)
       [''open'', a] = Inr v2 \<and>
     v1 \<le> v2"
proof -
  let ?s1 = "st\<lparr>joint_state := q1 # js\<rparr>" and ?s2 = "st\<lparr>joint_state := q2 # js\<rparr>"
  let ?e1 = "e\<lparr>object_states_dict := (object_states_dict e)(a \<mapsto> ?s1)\<rparr>"
  let ?e2 = "e\<lparr>object_states_dict := (object_states_dict e)(a \<mapsto> ?s2)\<rparr>"
  let ?A1 = "articulated_progress ?e1 a ?s1 ''default_open_ranges'' ''default_close_ranges''"
  let ?A2 = "articulated_progress ?e2 a ?s2 ''default_open_ranges'' ''default_close_ranges''"
  obtain w1 w2 where rp: "range_progress q1 tgt opp = Inr w1" "range_progress q2 tgt opp = Inr w2"
      "w1 \<le> w2"
    using range_progress_mono[OF ext dir] by blast
  have a1: "?A1 = (if \<not> is_ObjectState st \<or> \<not> is_ArticulatedObject ob then Inr 0 else Inr w1)"
    using articulated_progress_tables[OF ob] rp by simp
  have a2: "?A2 = (if \<not> is_ObjectState st \<or> \<not> is_ArticulatedObject ob then Inr 0 else Inr w2)"
    using articulated_progress_tables[OF ob] rp by simp
  obtain u1 u2 where u: "?A1 = Inr u1" "?A2 = Inr u2" "u1 \<le> u2"
    using a1 a2 rp(3) by (cases "\<not> is_ObjectState st \<or> \<not> is_ArticulatedObject ob") simp_all
  have u1le: "u1 \<le> 1"
    using articulated_progress_bounds[OF u(1)] by simp
  show ?thesis
  proof (cases "ev ''open'' [?s2]")
    case True
    then show ?thesis
      using u u1le by (cases "ev ''open'' [?s1]") (simp_all add: unary_open_unfold)
  next
    case False
    with evm have "\<not> ev ''open'' [?s1]" by blast
    with False show ?thesis
      using u by (simp add: unary_open_unfold)
  qed
qed

lemma door_tables:
  "get_object (door_env s pd sh q) ''door'' = Some door_obj"
  "object_properties door_obj =
     Some [''articulation'' \<mapsto>
             [''default_open_ranges'' \<mapsto> [1, 2], ''default_close_ranges'' \<mapsto> [0, 0]]]"
  by (simp_all add: get_object_def door_env_def door_obj_def)

theorem open_progress_monotone_witness:
  "((2::real) < 0 \<and> (1/2::real) \<le> 1/4 \<or> (0::real) < 1 \<and> (1/4::real) \<le> 1/2) \<and>
   \<not> never ''open'' [(door_state 0)\<lparr>joint_state := [1/4]\<rparr>] \<and>
   (\<exists>v1 v2.
     get_predicate_progress never
       ((door_env None None True 0)\<lparr>object_states_dict :=
          (object_states_dict (door_env None None True 0))
            (''door'' \<mapsto> (door_state 0)\<lparr>joint_state := [1/4]\<rparr>)\<rparr>)
       [''open'', ''door''] = Inr v1 \<and>
     get_predicate_progress never
       ((door_env None None True 0)\<lparr>object_states_dict :=
          (object_states_dict (door_env None None True 0))
            (''door'' \<mapsto> (door_state 0)\<lparr>joint_state := [1/2]\<rparr>)\<rparr>)
       [''open'', ''door''] = Inr v2 \<and>
     v1 \<le> v2)"
proof -
  have ext: "py_min [1, 2] = Inr 1" "py_max [1, 2] = Inr 2"
    "py_min [0, 0] = Inr 0" "py_max [0, 0] = Inr 0"
    by simp_all
  have dir: "((2::real) < 0 \<and> (1/2::real) \<le> 1/4) \<or> ((0::real) < 1 \<and> (1/4::real) \<le> 1/2)"
    by simp
  have evm: "never ''open'' [(door_state 0)\<lparr>joint_state := [1/4]\<rparr>] \<longrightarrow>
             never ''open'' [(door_state 0)\<lparr>joint_state := [1/2]\<rparr>]"
    by (simp add: never_def)
  have t1: "[''articulation'' \<mapsto>
             [''default_open_ranges'' \<mapsto> [1, 2::real], ''default_close_ranges'' \<mapsto> [0, 0]]]
            ''articulation'' =
          Some [''default_open_ranges'' \<mapsto> [1, 2], ''default_close_ranges'' \<mapsto> [0, 0]]"
    by simp
  have t2: "[''default_open_ranges'' \<mapsto> [1, 2::real], ''default_close_ranges'' \<mapsto> [0, 0]]
              ''default_open_ranges'' = Some [1, 2]"
    by simp
  have t3: "[''default_open_ranges'' \<mapsto> [1, 2::real], ''default_close_ranges'' \<mapsto> [0, 0]]
              ''default_close_ranges'' = Some [0, 0]"
    by simp
  show ?thesis
    using open_progress_monotone
            [where e = "door_env None None True 0" and a = "''door''" and ob = door_obj
               and props = "[''articulation'' \<mapsto>
                  [''default_open_ranges'' \<mapsto> [1, 2], ''default_close_ranges'' \<mapsto> [0, 0]]]"
               and art = "[''default_open_ranges'' \<mapsto> [1, 2], ''default_close_ranges'' \<mapsto> [0, 0]]"
               and tgt = "[1, 2]" and opp = "[0, 0]"
               and tmin = 1 and tmax = 2 and omin = 0 and omax = 0
               and ?q1.0 = "1/4" and ?q2.0 = "1/2" and ev = never
               and st = "door_state 0" and js = "[]",
             OF door_tables(1) door_tables(2) t1 t2 t3 ext dir evm]
          dir
    by (simp add: never_def)
qed

subsection \<open>The range claim on the cube scene\<close>

lemma cyclic_door_progress:
  "get_predicate_progress never cyclic_env [''open'', ''door''] = Inr 0"
  by (simp add: unary_progress_def never_def cyclic_env_def cubes_env_def lower_def
        lower_char_def articulated_progress_def get_object_def door_obj_def door_state_def
        range_progress_def np_clip_def)

lemma cyclic_door_tables:
  "\<forall>ob props art k r. get_object cyclic_env ''door'' = Some ob \<and>
      object_properties ob = Some props \<and> props ''articulation'' = Some art \<and>
      art k = Some r \<longrightarrow> r \<noteq> []"
  by (auto simp add: get_object_def cyclic_env_def cubes_env_def door_obj_def
        split: if_splits)

theorem progress_in_unit_interval_witness:
  "get_predicate_progress never cyclic_env [''open'', ''door''] = Inr 0 \<and>
   lower ''on'' \<in> {''on'', ''in''} \<and>
   object_states_dict cyclic_env ''a'' \<noteq> None \<and>
   object_states_dict cyclic_env ''b'' \<noteq> None \<and>
   (\<exists>w. get_predicate_progress never cyclic_env [''on'', ''a'', ''b''] = Inr w) \<and>
   lower ''open'' \<in> {''open'', ''close'', ''turnon'', ''turnoff''} \<and>
   object_states_dict cyclic_env ''door'' \<noteq> None \<and>
   (\<exists>w. get_predicate_progress never cyclic_env [''open'', ''door''] = Inr w \<and>
        0 \<le> w \<and> w \<le> 1)"
proof -
  have l: "lower ''on'' \<in> {''on'', ''in''}"
    "lower ''open'' \<in> {''open'', ''close'', ''turnon'', ''turnoff''}"
    by (simp_all add: lower_def lower_char_def)
  have s: "object_states_dict cyclic_env ''a'' \<noteq> None"
    "object_states_dict cyclic_env ''b'' \<noteq> None"
    "object_states_dict cyclic_env ''door'' \<noteq> None"
    by (simp_all add: cyclic_env_def cubes_states)
  show ?thesis
    using progress_in_unit_interval
            [of never cyclic_env "[''open'', ''door'']" 0 "''on''" "''a''" "''b''"
                "''open''" "''door''"]
          cyclic_door_progress cyclic_door_tables l s
    by blast
qed

section \<open>Placement planning and reset: properties\<close>

subsection \<open>The scenes, planned and reset\<close>



lemma mixed_cyclic_setup:
  "setup_placement_initializer mixed_cyclic_env = Inr mixed_cyclic_built"
  by (simp add: setup_placement_initializer_def add_placement_initializer_def
        mixed_cyclic_env_def mixed_cyclic_built_def kitchen_env_def initial_state_step_def
        on_region_branch_def property_branch_def joint_ranges_of_def get_object_def
        is_fixture_def mapping_inv_def add_category_def door_obj_def door_state_def Let_def)

lemma broken_cyclic_setup:
  "setup_placement_initializer broken_cyclic_env = Inl IndexError"
  by (simp add: setup_placement_initializer_def add_placement_initializer_def
        broken_cyclic_env_def kitchen_env_def initial_state_step_def
        property_branch_def Let_def)





subsection \<open>Deferred atoms accumulate independently of what was deferred before\<close>

lemma append_deferred_assoc:
  "append_deferred (append_deferred c d) d' = append_deferred c (append_deferred d d')"
  by (simp add: append_deferred_def)

lemma on_region_branch_deferred:
  "on_region_branch e c s =
     (case on_region_branch e
             \<lparr>conditioned_initial_place_state_on_sites = [],
              conditioned_initial_place_state_on_objects = [],
              conditioned_initial_place_state_in_objects = []\<rparr> s of
        Inl err \<Rightarrow> Inl err
      | Inr (e', d) \<Rightarrow> Inr (e', append_deferred c d))"
  by (simp add: on_region_branch_def append_deferred_def Let_def split: option.splits)

lemma property_branch_deferred:
  "property_branch e c s =
     (case property_branch e
             \<lparr>conditioned_initial_place_state_on_sites = [],
              conditioned_initial_place_state_on_objects = [],
              conditioned_initial_place_state_in_objects = []\<rparr> s of
        Inl err \<Rightarrow> Inl err
      | Inr (e', d) \<Rightarrow> Inr (e', append_deferred c d))"
  by (simp add: property_branch_def append_deferred_def Let_def
        split: option.splits sum.splits prod.splits)

lemma initial_state_step_deferred:
  "initial_state_step e c s =
     (case initial_state_step e
             \<lparr>conditioned_initial_place_state_on_sites = [],
              conditioned_initial_place_state_on_objects = [],
              conditioned_initial_place_state_in_objects = []\<rparr> s of
        Inl err \<Rightarrow> Inl err
      | Inr (e', d) \<Rightarrow> Inr (e', append_deferred c d))"
proof -
  have simple: "\<And>x. c\<lparr>conditioned_initial_place_state_on_objects :=
                      conditioned_initial_place_state_on_objects c @ x\<rparr> =
                  append_deferred c
                    \<lparr>conditioned_initial_place_state_on_sites = [],
                     conditioned_initial_place_state_on_objects = x,
                     conditioned_initial_place_state_in_objects = []\<rparr>"
    "\<And>x. c\<lparr>conditioned_initial_place_state_in_objects :=
                      conditioned_initial_place_state_in_objects c @ x\<rparr> =
                  append_deferred c
                    \<lparr>conditioned_initial_place_state_on_sites = [],
                     conditioned_initial_place_state_on_objects = [],
                     conditioned_initial_place_state_in_objects = x\<rparr>"
    by (simp_all add: append_deferred_def)
  show ?thesis
    unfolding initial_state_step_def
    using on_region_branch_deferred[of e c s] property_branch_deferred[of e c s]
    by (auto simp add: simple)
qed

lemma initial_state_loop_deferred:
  "initial_state_loop e c states =
     (case initial_state_loop e
             \<lparr>conditioned_initial_place_state_on_sites = [],
              conditioned_initial_place_state_on_objects = [],
              conditioned_initial_place_state_in_objects = []\<rparr> states of
        Inl err \<Rightarrow> Inl err
      | Inr (e', d) \<Rightarrow> Inr (e', append_deferred c d))"
proof (induction states arbitrary: e c)
  case Nil
  show ?case by (simp add: append_deferred_def)
next
  case (Cons s rest)
  let ?c0 = "\<lparr>conditioned_initial_place_state_on_sites = [],
              conditioned_initial_place_state_on_objects = [],
              conditioned_initial_place_state_in_objects = []\<rparr>"
  show ?case
  proof (cases "initial_state_step e ?c0 s")
    case (Inl err)
    then show ?thesis
      using initial_state_step_deferred[of e c s] by simp
  next
    case (Inr p)
    obtain e1 d1 where p: "p = (e1, d1)" by (cases p)
    have s0: "initial_state_step e ?c0 s = Inr (e1, d1)"
      using Inr p by simp
    have sc: "initial_state_step e c s = Inr (e1, append_deferred c d1)"
      using initial_state_step_deferred[of e c s] s0 by simp
    show ?thesis
    proof (cases "initial_state_loop e1 ?c0 rest")
      case (Inl err)
      then show ?thesis
        using s0 sc Cons.IH[of e1 "append_deferred c d1"] Cons.IH[of e1 d1] by simp
    next
      case (Inr q)
      obtain e2 d2 where q: "q = (e2, d2)" by (cases q)
      show ?thesis
        using s0 sc Inr q Cons.IH[of e1 "append_deferred c d1"] Cons.IH[of e1 d1]
        by (simp add: append_deferred_assoc)
    qed
  qed
qed

subsection \<open>What the planner leaves untouched\<close>

lemma on_region_branch_frame:
  "on_region_branch e c s = Inr (e', c') \<Longrightarrow>
     objects_dict e' = objects_dict e \<and>
     conditional_placement_on_objects_initializer e' =
       conditional_placement_on_objects_initializer e \<and>
     conditioned_initial_place_state_on_objects c' =
       conditioned_initial_place_state_on_objects c"
  by (auto simp add: on_region_branch_def Let_def split: option.splits if_splits)

lemma property_branch_frame:
  "property_branch e c s = Inr (e', c') \<Longrightarrow>
     objects_dict e' = objects_dict e \<and>
     conditional_placement_on_objects_initializer e' =
       conditional_placement_on_objects_initializer e \<and>
     conditioned_initial_place_state_on_objects c' =
       conditioned_initial_place_state_on_objects c"
  by (auto simp add: property_branch_def Let_def split: option.splits if_splits sum.splits)

lemma initial_state_step_frame:
  assumes "initial_state_step e c s = Inr (e', c')"
  shows "objects_dict e' = objects_dict e"
    and "conditional_placement_on_objects_initializer e' =
           conditional_placement_on_objects_initializer e"
    and "conditioned_initial_place_state_on_objects c' =
           conditioned_initial_place_state_on_objects c @
           (if 3 \<le> length s \<and> s ! 0 = ''on'' \<and> objects_dict e (s ! 2) \<noteq> None then [s] else [])"
  using assms on_region_branch_frame[of e c s e' c'] property_branch_frame[of e c s e' c']
  by (auto simp add: initial_state_step_def split: if_splits)

lemma initial_state_loop_on_objects:
  "initial_state_loop e c states = Inr (e', c') \<Longrightarrow>
     objects_dict e' = objects_dict e \<and>
     conditional_placement_on_objects_initializer e' =
       conditional_placement_on_objects_initializer e \<and>
     conditioned_initial_place_state_on_objects c' =
       conditioned_initial_place_state_on_objects c @
       filter (\<lambda>s. 3 \<le> length s \<and> s ! 0 = ''on'' \<and> objects_dict e (s ! 2) \<noteq> None) states"
proof (induction states arbitrary: e c)
  case Nil
  then show ?case by simp
next
  case (Cons s rest)
  from Cons.prems obtain e1 c1 where
    st: "initial_state_step e c s = Inr (e1, c1)" and
    lp: "initial_state_loop e1 c1 rest = Inr (e', c')"
    by (auto split: sum.splits)
  note f = initial_state_step_frame[OF st]
  from Cons.IH[OF lp] f show ?case by simp
qed

lemma place_on_sites_frame:
  "place_on_sites e states = Inr e' \<Longrightarrow>
     objects_dict e' = objects_dict e \<and>
     conditional_placement_on_objects_initializer e' =
       conditional_placement_on_objects_initializer e"
proof (induction states arbitrary: e)
  case Nil
  then show ?case by simp
next
  case (Cons s rest)
  from Cons.prems obtain rg where rg: "regions (parsed_problem e) (s ! 2) = Some rg"
    by (auto simp add: Let_def split: option.splits)
  let ?e1 = "e\<lparr>conditional_placement_initializer := conditional_placement_initializer e @
               [new_sampler SiteRegionRandomSampler (s ! 1) (Some (target rg))
                  (Some (s ! 2))]\<rparr>"
  have "place_on_sites ?e1 rest = Inr e'"
    using Cons.prems rg by (simp add: Let_def split: option.splits)
  from Cons.IH[OF this] show ?case by simp
qed

lemma place_in_objects_frame:
  "place_in_objects e states = Inr e' \<Longrightarrow>
     objects_dict e' = objects_dict e \<and>
     conditional_placement_on_objects_initializer e' =
       conditional_placement_on_objects_initializer e"
proof (induction states arbitrary: e)
  case Nil
  then show ?case by simp
next
  case (Cons s rest)
  from Cons.prems obtain rg where rg: "regions (parsed_problem e) (s ! 2) = Some rg"
    by (auto simp add: Let_def split: option.splits)
  let ?e1 = "e\<lparr>conditional_placement_initializer := conditional_placement_initializer e @
               [new_sampler InSiteRegionRandomSampler (s ! 1) (Some (target rg))
                  (Some (s ! 2))]\<rparr>"
  have "place_in_objects ?e1 rest = Inr e'"
    using Cons.prems rg by (simp add: Let_def split: option.splits)
  from Cons.IH[OF this] show ?case by simp
qed

lemma place_on_objects_closed:
  "place_on_objects e states =
     (case find (\<lambda>s. objects_dict e (s ! 1) = None) states of
        Some s \<Rightarrow> Inl (KeyError (s ! 1))
      | None \<Rightarrow>
          Inr (e\<lparr>conditional_placement_on_objects_initializer :=
                   conditional_placement_on_objects_initializer e @
                   map (\<lambda>s. new_sampler ObjectBasedSampler (s ! 1) (Some (s ! 2)) None) states\<rparr>))"
proof (induction states arbitrary: e)
  case Nil
  show ?case by simp
next
  case (Cons s rest)
  show ?case
  proof (cases "objects_dict e (s ! 1)")
    case None
    then show ?thesis by (simp add: Let_def)
  next
    case (Some ob)
    then show ?thesis
      by (simp add: Let_def Cons.IH split: option.splits)
  qed
qed

lemma find_filter_same:
  "(\<And>s. Q s \<Longrightarrow> R s) \<Longrightarrow> find Q (filter R xs) = find Q xs"
  by (induction xs) auto

subsection \<open>The planner's loops do not read the list of atoms from the environment\<close>

lemma with_initial_state_fields [simp]:
  "objects_dict (with_initial_state X e) = objects_dict e"
  "fixtures_dict (with_initial_state X e) = fixtures_dict e"
  "object_sites_dict (with_initial_state X e) = object_sites_dict e"
  "object_states_dict (with_initial_state X e) = object_states_dict e"
  "regions (parsed_problem (with_initial_state X e)) = regions (parsed_problem e)"
  "problem_name (parsed_problem (with_initial_state X e)) = problem_name (parsed_problem e)"
  "initial_state (parsed_problem (with_initial_state X e)) = X"
  "placement_initializer (with_initial_state X e) = placement_initializer e"
  "conditional_placement_initializer (with_initial_state X e) =
     conditional_placement_initializer e"
  "conditional_placement_on_objects_initializer (with_initial_state X e) =
     conditional_placement_on_objects_initializer e"
  "object_property_initializers (with_initial_state X e) = object_property_initializers e"
  by (simp_all add: with_initial_state_def)

lemma with_initial_state_updates [simp]:
  "(with_initial_state X e)\<lparr>placement_initializer := p\<rparr> =
     with_initial_state X (e\<lparr>placement_initializer := p\<rparr>)"
  "(with_initial_state X e)\<lparr>conditional_placement_initializer := p\<rparr> =
     with_initial_state X (e\<lparr>conditional_placement_initializer := p\<rparr>)"
  "(with_initial_state X e)\<lparr>conditional_placement_on_objects_initializer := p\<rparr> =
     with_initial_state X (e\<lparr>conditional_placement_on_objects_initializer := p\<rparr>)"
  "(with_initial_state X e)\<lparr>object_property_initializers := q\<rparr> =
     with_initial_state X (e\<lparr>object_property_initializers := q\<rparr>)"
  by (simp_all add: with_initial_state_def)

lemma mapping_inv_with_initial_state [simp]:
  "mapping_inv (parsed_problem (with_initial_state X e)) = mapping_inv (parsed_problem e)"
  by (simp add: mapping_inv_def with_initial_state_def)

lemma get_object_with_initial_state [simp]:
  "get_object (with_initial_state X e) n = get_object e n"
  by (simp add: get_object_def split: option.splits)

lemma joint_ranges_of_with_initial_state [simp]:
  "joint_ranges_of (with_initial_state X e) n k = joint_ranges_of e n k"
  by (simp add: joint_ranges_of_def)

lemma is_fixture_with_initial_state [simp]:
  "is_fixture (with_initial_state X e) n = is_fixture e n"
  by (simp add: is_fixture_def)

lemma on_region_branch_with_initial_state:
  "on_region_branch (with_initial_state X e) c s =
     (case on_region_branch e c s of
        Inl err \<Rightarrow> Inl err
      | Inr (e', c') \<Rightarrow> Inr (with_initial_state X e', c'))"
  by (simp add: on_region_branch_def Let_def split: option.splits)

lemma property_branch_with_initial_state:
  "property_branch (with_initial_state X e) c s =
     (case property_branch e c s of
        Inl err \<Rightarrow> Inl err
      | Inr (e', c') \<Rightarrow> Inr (with_initial_state X e', c'))"
  by (simp add: property_branch_def Let_def split: option.splits sum.splits prod.splits)

lemma initial_state_step_with_initial_state:
  "initial_state_step (with_initial_state X e) c s =
     (case initial_state_step e c s of
        Inl err \<Rightarrow> Inl err
      | Inr (e', c') \<Rightarrow> Inr (with_initial_state X e', c'))"
  by (auto simp add: initial_state_step_def on_region_branch_with_initial_state
        property_branch_with_initial_state)

lemma initial_state_loop_with_initial_state:
  "initial_state_loop (with_initial_state X e) c states =
     (case initial_state_loop e c states of
        Inl err \<Rightarrow> Inl err
      | Inr (e', c') \<Rightarrow> Inr (with_initial_state X e', c'))"
proof (induction states arbitrary: e c)
  case Nil
  show ?case by simp
next
  case (Cons s rest)
  show ?case
    by (simp add: initial_state_step_with_initial_state Cons.IH
          split: sum.splits prod.splits)
qed

lemma place_on_sites_with_initial_state:
  "place_on_sites (with_initial_state X e) states =
     (case place_on_sites e states of
        Inl err \<Rightarrow> Inl err
      | Inr e' \<Rightarrow> Inr (with_initial_state X e'))"
proof (induction states arbitrary: e)
  case Nil
  show ?case by simp
next
  case (Cons s rest)
  show ?case
    by (simp add: Let_def Cons.IH split: option.splits)
qed

lemma place_in_objects_with_initial_state:
  "place_in_objects (with_initial_state X e) states =
     (case place_in_objects e states of
        Inl err \<Rightarrow> Inl err
      | Inr e' \<Rightarrow> Inr (with_initial_state X e'))"
proof (induction states arbitrary: e)
  case Nil
  show ?case by simp
next
  case (Cons s rest)
  show ?case
    by (simp add: Let_def Cons.IH split: option.splits)
qed

lemma place_in_objects_on_objects_registry:
  "place_in_objects (e\<lparr>conditional_placement_on_objects_initializer := Y\<rparr>) states =
     (case place_in_objects e states of
        Inl err \<Rightarrow> Inl err
      | Inr e' \<Rightarrow> Inr (e'\<lparr>conditional_placement_on_objects_initializer := Y\<rparr>))"
proof (induction states arbitrary: e)
  case Nil
  show ?case by simp
next
  case (Cons s rest)
  have upd: "\<And>Z. e\<lparr>conditional_placement_on_objects_initializer := Y,
                      conditional_placement_initializer := Z\<rparr> =
                  e\<lparr>conditional_placement_initializer := Z,
                      conditional_placement_on_objects_initializer := Y\<rparr>"
    by simp
  show ?case
    by (simp add: Let_def upd Cons.IH split: option.splits)
qed

subsection \<open>Removing a mutually stacked pair\<close>

lemma append_deferred_drop_front:
  "(append_deferred
      \<lparr>conditioned_initial_place_state_on_sites = [],
       conditioned_initial_place_state_on_objects = x,
       conditioned_initial_place_state_in_objects = []\<rparr> d)
     \<lparr>conditioned_initial_place_state_on_objects := y\<rparr> =
   d\<lparr>conditioned_initial_place_state_on_objects := y\<rparr>"
  by (cases d) (simp add: append_deferred_def)

lemma append_deferred_filter:
  "filter k (conditioned_initial_place_state_on_objects d1) =
     conditioned_initial_place_state_on_objects d1 \<Longrightarrow>
   append_deferred d1
     (d2\<lparr>conditioned_initial_place_state_on_objects :=
            filter k (conditioned_initial_place_state_on_objects d2)\<rparr>) =
   (append_deferred d1 d2)
     \<lparr>conditioned_initial_place_state_on_objects :=
        filter k (conditioned_initial_place_state_on_objects (append_deferred d1 d2))\<rparr>"
  by (simp add: append_deferred_def)

lemma initial_state_step_on_object_atom:
  "objects_dict e y \<noteq> None \<Longrightarrow>
   initial_state_step e c [''on'', x, y] =
     Inr (e, c\<lparr>conditioned_initial_place_state_on_objects :=
                 conditioned_initial_place_state_on_objects c @ [[''on'', x, y]]\<rparr>)"
  by (simp add: initial_state_step_def)

lemma initial_state_loop_without_pair:
  assumes a: "objects_dict e a \<noteq> None" and b: "objects_dict e b \<noteq> None"
  shows "initial_state_loop e
           \<lparr>conditioned_initial_place_state_on_sites = [],
            conditioned_initial_place_state_on_objects = [],
            conditioned_initial_place_state_in_objects = []\<rparr>
           (filter (\<lambda>s. s \<noteq> [''on'', a, b] \<and> s \<noteq> [''on'', b, a]) states) =
     (case initial_state_loop e
             \<lparr>conditioned_initial_place_state_on_sites = [],
              conditioned_initial_place_state_on_objects = [],
              conditioned_initial_place_state_in_objects = []\<rparr> states of
        Inl err \<Rightarrow> Inl err
      | Inr (e', d) \<Rightarrow>
          Inr (e', d\<lparr>conditioned_initial_place_state_on_objects :=
                       filter (\<lambda>s. s \<noteq> [''on'', a, b] \<and> s \<noteq> [''on'', b, a])
                         (conditioned_initial_place_state_on_objects d)\<rparr>))"
  using a b
proof (induction states arbitrary: e)
  case Nil
  show ?case by simp
next
  case (Cons s rest)
  let ?c0 = "\<lparr>conditioned_initial_place_state_on_sites = [],
              conditioned_initial_place_state_on_objects = [],
              conditioned_initial_place_state_in_objects = []\<rparr>"
  let ?keep = "\<lambda>s. s \<noteq> [''on'', a, b] \<and> s \<noteq> [''on'', b, a]"
  show ?case
  proof (cases "?keep s")
    case False
    then have st: "initial_state_step e ?c0 s =
        Inr (e, \<lparr>conditioned_initial_place_state_on_sites = [],
                 conditioned_initial_place_state_on_objects = [s],
                 conditioned_initial_place_state_in_objects = []\<rparr>)"
      using Cons.prems initial_state_step_on_object_atom[of e b ?c0 a]
            initial_state_step_on_object_atom[of e a ?c0 b]
      by auto
    have ih: "initial_state_loop e ?c0 (filter ?keep rest) =
      (case initial_state_loop e ?c0 rest of
        Inl err \<Rightarrow> Inl err
      | Inr (e', d) \<Rightarrow>
          Inr (e', d\<lparr>conditioned_initial_place_state_on_objects :=
                       filter ?keep (conditioned_initial_place_state_on_objects d)\<rparr>))"
      using Cons.IH[OF Cons.prems] .
    have df: "initial_state_loop e
                \<lparr>conditioned_initial_place_state_on_sites = [],
                 conditioned_initial_place_state_on_objects = [s],
                 conditioned_initial_place_state_in_objects = []\<rparr> rest =
      (case initial_state_loop e ?c0 rest of
        Inl err \<Rightarrow> Inl err
      | Inr (e', d) \<Rightarrow>
          Inr (e', append_deferred
                     \<lparr>conditioned_initial_place_state_on_sites = [],
                      conditioned_initial_place_state_on_objects = [s],
                      conditioned_initial_place_state_in_objects = []\<rparr> d))"
      by (rule initial_state_loop_deferred)
    have fl: "\<And>d. filter ?keep
                  (conditioned_initial_place_state_on_objects
                    (append_deferred
                       \<lparr>conditioned_initial_place_state_on_sites = [],
                        conditioned_initial_place_state_on_objects = [s],
                        conditioned_initial_place_state_in_objects = []\<rparr> d)) =
                filter ?keep (conditioned_initial_place_state_on_objects d)"
      using False by (simp add: append_deferred_def)
    show ?thesis
    proof (cases "initial_state_loop e ?c0 rest")
      case (Inl err)
      with False st ih df show ?thesis by auto
    next
      case (Inr p)
      obtain e2 d2 where p: "p = (e2, d2)" by (cases p)
      from False st ih df Inr p show ?thesis
        by (auto simp add: fl append_deferred_drop_front)
    qed
  next
    case True
    show ?thesis
    proof (cases "initial_state_step e ?c0 s")
      case (Inl err)
      with True show ?thesis by simp
    next
      case (Inr p)
      obtain e1 d1 where p: "p = (e1, d1)" by (cases p)
      have st: "initial_state_step e ?c0 s = Inr (e1, d1)"
        using Inr p by simp
      note f = initial_state_step_frame[OF st]
      have ab1: "objects_dict e1 a \<noteq> None" "objects_dict e1 b \<noteq> None"
        using f(1) Cons.prems by simp_all
      have keep1: "filter ?keep (conditioned_initial_place_state_on_objects d1) =
                     conditioned_initial_place_state_on_objects d1"
        using f(3) True by simp
      have ih: "initial_state_loop e1 ?c0 (filter ?keep rest) =
        (case initial_state_loop e1 ?c0 rest of
          Inl err \<Rightarrow> Inl err
        | Inr (e', d) \<Rightarrow>
            Inr (e', d\<lparr>conditioned_initial_place_state_on_objects :=
                         filter ?keep (conditioned_initial_place_state_on_objects d)\<rparr>))"
        using Cons.IH[OF ab1] .
      have df1: "initial_state_loop e1 d1 (filter ?keep rest) =
        (case initial_state_loop e1 ?c0 (filter ?keep rest) of
          Inl err \<Rightarrow> Inl err
        | Inr (e', d) \<Rightarrow> Inr (e', append_deferred d1 d))"
        by (rule initial_state_loop_deferred)
      have df2: "initial_state_loop e1 d1 rest =
        (case initial_state_loop e1 ?c0 rest of
          Inl err \<Rightarrow> Inl err
        | Inr (e', d) \<Rightarrow> Inr (e', append_deferred d1 d))"
        by (rule initial_state_loop_deferred)
      show ?thesis
      proof (cases "initial_state_loop e1 ?c0 rest")
        case (Inl err)
        with True st ih df1 df2 show ?thesis by simp
      next
        case (Inr q)
        obtain e2 d2 where q: "q = (e2, d2)" by (cases q)
        from True st ih df1 df2 Inr q show ?thesis
          by (simp add: append_deferred_filter[OF keep1])
      qed
    qed
  qed
qed

lemma add_placement_initializer_on_objects:
  assumes "add_placement_initializer e = Inr e'"
  shows "conditional_placement_on_objects_initializer e' =
           conditional_placement_on_objects_initializer e @
           map (\<lambda>s. new_sampler ObjectBasedSampler (s ! 1) (Some (s ! 2)) None)
             (filter (\<lambda>s. 3 \<le> length s \<and> s ! 0 = ''on'' \<and> objects_dict e (s ! 2) \<noteq> None)
                (initial_state (parsed_problem e)))"
proof -
  let ?c0 = "\<lparr>conditioned_initial_place_state_on_sites = [],
              conditioned_initial_place_state_on_objects = [],
              conditioned_initial_place_state_in_objects = []\<rparr>"
  from assms obtain e1 d e2 e3 where
    l: "initial_state_loop e ?c0 (initial_state (parsed_problem e)) = Inr (e1, d)" and
    s: "place_on_sites e1 (conditioned_initial_place_state_on_sites d) = Inr e2" and
    ob: "place_on_objects e2 (conditioned_initial_place_state_on_objects d) = Inr e3" and
    i: "place_in_objects e3 (conditioned_initial_place_state_in_objects d) = Inr e'"
    by (auto simp add: add_placement_initializer_def split: sum.splits prod.splits)
  note fl = initial_state_loop_on_objects[OF l]
  note fs = place_on_sites_frame[OF s]
  note fi = place_in_objects_frame[OF i]
  have "e3 = e2\<lparr>conditional_placement_on_objects_initializer :=
                 conditional_placement_on_objects_initializer e2 @
                 map (\<lambda>s. new_sampler ObjectBasedSampler (s ! 1) (Some (s ! 2)) None)
                   (conditioned_initial_place_state_on_objects d)\<rparr>"
    using ob by (simp add: place_on_objects_closed split: option.splits)
  then have "conditional_placement_on_objects_initializer e3 =
               conditional_placement_on_objects_initializer e2 @
               map (\<lambda>s. new_sampler ObjectBasedSampler (s ! 1) (Some (s ! 2)) None)
                 (conditioned_initial_place_state_on_objects d)"
    by simp
  with fl fs fi show ?thesis by simp
qed

lemma add_placement_initializer_without_pair:
  assumes a: "objects_dict e a \<noteq> None" and b: "objects_dict e b \<noteq> None"
    and err: "add_placement_initializer e = Inl err"
  shows "add_placement_initializer
           (with_initial_state
              (filter (\<lambda>s. s \<noteq> [''on'', a, b] \<and> s \<noteq> [''on'', b, a])
                 (initial_state (parsed_problem e))) e) = Inl err"
proof -
  let ?c0 = "\<lparr>conditioned_initial_place_state_on_sites = [],
              conditioned_initial_place_state_on_objects = [],
              conditioned_initial_place_state_in_objects = []\<rparr>"
  let ?keep = "\<lambda>s. s \<noteq> [''on'', a, b] \<and> s \<noteq> [''on'', b, a]"
  let ?init = "initial_state (parsed_problem e)"
  let ?X = "filter ?keep ?init"
  let ?mk = "\<lambda>s. new_sampler ObjectBasedSampler (s ! 1) (Some (s ! 2)) None"
  have loop': "initial_state_loop (with_initial_state ?X e) ?c0 ?X =
      (case initial_state_loop e ?c0 ?init of
         Inl err \<Rightarrow> Inl err
       | Inr (e', d) \<Rightarrow>
           Inr (with_initial_state ?X e',
                d\<lparr>conditioned_initial_place_state_on_objects :=
                     filter ?keep (conditioned_initial_place_state_on_objects d)\<rparr>))"
    by (simp add: initial_state_loop_with_initial_state
          initial_state_loop_without_pair[OF a b] split: sum.splits)
  show ?thesis
  proof (cases "initial_state_loop e ?c0 ?init")
    case (Inl err0)
    with err have "err0 = err"
      by (simp add: add_placement_initializer_def)
    with Inl loop' show ?thesis
      by (simp add: add_placement_initializer_def)
  next
    case (Inr p)
    obtain e1 d where p: "p = (e1, d)" by (cases p)
    have l: "initial_state_loop e ?c0 ?init = Inr (e1, d)"
      using Inr p by simp
    note fl = initial_state_loop_on_objects[OF l]
    let ?d' = "d\<lparr>conditioned_initial_place_state_on_objects :=
                     filter ?keep (conditioned_initial_place_state_on_objects d)\<rparr>"
    have l': "initial_state_loop (with_initial_state ?X e) ?c0 ?X =
                Inr (with_initial_state ?X e1, ?d')"
      using loop' l by simp
    show ?thesis
    proof (cases "place_on_sites e1 (conditioned_initial_place_state_on_sites d)")
      case (Inl err1)
      with err l have "err1 = err"
        by (simp add: add_placement_initializer_def)
      with Inl l' show ?thesis
        by (simp add: add_placement_initializer_def place_on_sites_with_initial_state)
    next
      case (Inr e2)
      note fs = place_on_sites_frame[OF Inr]
      have ab2: "objects_dict e2 a \<noteq> None" "objects_dict e2 b \<noteq> None"
        using fs fl a b by simp_all
      have sites': "place_on_sites (with_initial_state ?X e1)
                      (conditioned_initial_place_state_on_sites ?d') =
                    Inr (with_initial_state ?X e2)"
        using Inr by (simp add: place_on_sites_with_initial_state)
      have fnd: "find (\<lambda>s. objects_dict e2 (s ! 1) = None)
                   (filter ?keep (conditioned_initial_place_state_on_objects d)) =
                 find (\<lambda>s. objects_dict e2 (s ! 1) = None)
                   (conditioned_initial_place_state_on_objects d)"
        using ab2 by (intro find_filter_same) auto
      show ?thesis
      proof (cases "find (\<lambda>s. objects_dict e2 (s ! 1) = None)
                      (conditioned_initial_place_state_on_objects d)")
        case (Some s)
        have "place_on_objects e2 (conditioned_initial_place_state_on_objects d) =
                Inl (KeyError (s ! 1))"
          using Some by (simp add: place_on_objects_closed)
        with err l Inr have "err = KeyError (s ! 1)"
          by (simp add: add_placement_initializer_def)
        moreover have "place_on_objects (with_initial_state ?X e2)
                         (conditioned_initial_place_state_on_objects ?d') =
                       Inl (KeyError (s ! 1))"
          using Some fnd by (simp add: place_on_objects_closed)
        ultimately show ?thesis
          using l' sites' by (simp add: add_placement_initializer_def)
      next
        case None
        let ?Z = "conditional_placement_on_objects_initializer e2 @
                    map ?mk (conditioned_initial_place_state_on_objects d)"
        let ?Z' = "conditional_placement_on_objects_initializer e2 @
                    map ?mk (filter ?keep (conditioned_initial_place_state_on_objects d))"
        have o1: "place_on_objects e2 (conditioned_initial_place_state_on_objects d) =
                    Inr (e2\<lparr>conditional_placement_on_objects_initializer := ?Z\<rparr>)"
          using None by (simp add: place_on_objects_closed)
        have o2: "place_on_objects (with_initial_state ?X e2)
                    (conditioned_initial_place_state_on_objects ?d') =
                  Inr (with_initial_state ?X
                         (e2\<lparr>conditional_placement_on_objects_initializer := ?Z'\<rparr>))"
          using None fnd by (simp add: place_on_objects_closed)
        have "place_in_objects (e2\<lparr>conditional_placement_on_objects_initializer := ?Z\<rparr>)
                (conditioned_initial_place_state_in_objects d) = Inl err"
          using err l Inr o1 by (simp add: add_placement_initializer_def)
        then have i0: "place_in_objects e2 (conditioned_initial_place_state_in_objects d) =
                         Inl err"
          by (simp add: place_in_objects_on_objects_registry split: sum.splits)
        have "place_in_objects
                (with_initial_state ?X
                   (e2\<lparr>conditional_placement_on_objects_initializer := ?Z'\<rparr>))
                (conditioned_initial_place_state_in_objects ?d') = Inl err"
          using i0
          by (simp add: place_in_objects_with_initial_state
                place_in_objects_on_objects_registry)
        with l' sites' o2 show ?thesis
          by (simp add: add_placement_initializer_def)
      qed
    qed
  qed
qed

lemma in_set_map: "x \<in> set xs \<Longrightarrow> f x \<in> set (map f xs)"
  by auto

subsection \<open>Mutually stacked objects\<close>

text \<open>
  Claim C2, as stated, fails: for the initial state \<open>on(a, b)\<close>, \<open>on(b, a)\<close> over two
  movable objects the planner raises nothing and registers both object-conditioned
  samplers.
\<close>

theorem cyclic_on_atoms_do_not_raise:
  "setup_placement_initializer cyclic_env =
     Inr (cyclic_env\<lparr>conditional_placement_on_objects_initializer :=
            [new_sampler ObjectBasedSampler ''a'' (Some ''b'') None,
             new_sampler ObjectBasedSampler ''b'' (Some ''a'') None]\<rparr>)"
  by (simp add: setup_placement_initializer_def add_placement_initializer_def cyclic_env_def
        cubes_env_def initial_state_step_def Let_def)

text \<open>
  Claim C2, amended.  If the initial state contains two atoms \<open>on(a, b)\<close> and
  \<open>on(b, a)\<close> over two distinct movable objects, among any other atoms, the planner
  does not detect the cycle.  Whenever scene building completes, the object-conditioned
  samplers registered are exactly those of the \<open>on(obj, other)\<close> atoms over a
  movable \<open>other\<close>, in declaration order, each with \<open>other\<close> as its reference; the
  samplers of both atoms of the pair are among them.  Whenever scene building raises,
  it raises the same exception with the pair removed from the initial state: the
  exception comes from another atom, never from the cycle.
\<close>

theorem cyclic_on_atoms_register_both_samplers:
  assumes a: "objects_dict e a \<noteq> None" and b: "objects_dict e b \<noteq> None"
    and ne: "a \<noteq> b"
    and ab: "[''on'', a, b] \<in> set (initial_state (parsed_problem e))"
    and ba: "[''on'', b, a] \<in> set (initial_state (parsed_problem e))"
  shows "(\<forall>e'. setup_placement_initializer e = Inr e' \<longrightarrow>
            conditional_placement_on_objects_initializer e' =
              map (\<lambda>s. new_sampler ObjectBasedSampler (s ! 1) (Some (s ! 2)) None)
                (filter (\<lambda>s. 3 \<le> length s \<and> s ! 0 = ''on'' \<and> objects_dict e (s ! 2) \<noteq> None)
                   (initial_state (parsed_problem e))) \<and>
            new_sampler ObjectBasedSampler a (Some b) None
              \<in> set (conditional_placement_on_objects_initializer e') \<and>
            new_sampler ObjectBasedSampler b (Some a) None
              \<in> set (conditional_placement_on_objects_initializer e')) \<and>
         (\<forall>err. setup_placement_initializer e = Inl err \<longrightarrow>
            setup_placement_initializer
              (with_initial_state
                 (filter (\<lambda>s. s \<noteq> [''on'', a, b] \<and> s \<noteq> [''on'', b, a])
                    (initial_state (parsed_problem e))) e) = Inl err)"
proof (intro conjI allI impI)
  fix e'
  assume ok: "setup_placement_initializer e = Inr e'"
  let ?mk = "\<lambda>s. new_sampler ObjectBasedSampler (s ! 1) (Some (s ! 2)) None"
  let ?on = "\<lambda>s. 3 \<le> length s \<and> s ! 0 = ''on'' \<and> objects_dict e (s ! 2) \<noteq> None"
  show reg: "conditional_placement_on_objects_initializer e' =
               map ?mk (filter ?on (initial_state (parsed_problem e)))"
    using add_placement_initializer_on_objects[of _ e'] ok
    by (simp add: setup_placement_initializer_def)
  have "[''on'', a, b] \<in> set (filter ?on (initial_state (parsed_problem e)))"
    using ab b by simp
  from in_set_map[OF this, where f = ?mk] show "new_sampler ObjectBasedSampler a (Some b) None
          \<in> set (conditional_placement_on_objects_initializer e')"
    using reg by simp
  have "[''on'', b, a] \<in> set (filter ?on (initial_state (parsed_problem e)))"
    using ba a by simp
  from in_set_map[OF this, where f = ?mk] show "new_sampler ObjectBasedSampler b (Some a) None
          \<in> set (conditional_placement_on_objects_initializer e')"
    using reg by simp
next
  fix err
  assume bad: "setup_placement_initializer e = Inl err"
  let ?ef = "e\<lparr>placement_initializer := [], conditional_placement_initializer := [],
               conditional_placement_on_objects_initializer := []\<rparr>"
  have "add_placement_initializer ?ef = Inl err"
    using bad by (simp add: setup_placement_initializer_def)
  from add_placement_initializer_without_pair[OF _ _ this, of a b] a b
  show "setup_placement_initializer
          (with_initial_state
             (filter (\<lambda>s. s \<noteq> [''on'', a, b] \<and> s \<noteq> [''on'', b, a])
                (initial_state (parsed_problem e))) e) = Inl err"
    by (simp add: setup_placement_initializer_def)
qed

theorem cyclic_on_atoms_register_both_samplers_witness:
  "objects_dict mixed_cyclic_env ''a'' \<noteq> None \<and>
   objects_dict mixed_cyclic_env ''b'' \<noteq> None \<and>
   ''a'' \<noteq> ''b'' \<and>
   [''on'', ''a'', ''b''] \<in> set (initial_state (parsed_problem mixed_cyclic_env)) \<and>
   [''on'', ''b'', ''a''] \<in> set (initial_state (parsed_problem mixed_cyclic_env)) \<and>
   setup_placement_initializer mixed_cyclic_env = Inr mixed_cyclic_built \<and>
   new_sampler ObjectBasedSampler ''a'' (Some ''b'') None
     \<in> set (conditional_placement_on_objects_initializer mixed_cyclic_built) \<and>
   new_sampler ObjectBasedSampler ''b'' (Some ''a'') None
     \<in> set (conditional_placement_on_objects_initializer mixed_cyclic_built) \<and>
   objects_dict broken_cyclic_env ''a'' \<noteq> None \<and>
   objects_dict broken_cyclic_env ''b'' \<noteq> None \<and>
   [''on'', ''a'', ''b''] \<in> set (initial_state (parsed_problem broken_cyclic_env)) \<and>
   [''on'', ''b'', ''a''] \<in> set (initial_state (parsed_problem broken_cyclic_env)) \<and>
   setup_placement_initializer broken_cyclic_env = Inl IndexError \<and>
   setup_placement_initializer (with_initial_state [[''open'']] broken_cyclic_env) =
     Inl IndexError"
proof -
  have m: "objects_dict mixed_cyclic_env ''a'' \<noteq> None"
    "objects_dict mixed_cyclic_env ''b'' \<noteq> None"
    "''a'' \<noteq> ''b''"
    "[''on'', ''a'', ''b''] \<in> set (initial_state (parsed_problem mixed_cyclic_env))"
    "[''on'', ''b'', ''a''] \<in> set (initial_state (parsed_problem mixed_cyclic_env))"
    by (simp_all add: mixed_cyclic_env_def kitchen_env_def)
  have k: "objects_dict broken_cyclic_env ''a'' \<noteq> None"
    "objects_dict broken_cyclic_env ''b'' \<noteq> None"
    "''a'' \<noteq> ''b''"
    "[''on'', ''a'', ''b''] \<in> set (initial_state (parsed_problem broken_cyclic_env))"
    "[''on'', ''b'', ''a''] \<in> set (initial_state (parsed_problem broken_cyclic_env))"
    by (simp_all add: broken_cyclic_env_def kitchen_env_def)
  have f: "filter (\<lambda>s. s \<noteq> [''on'', ''a'', ''b''] \<and> s \<noteq> [''on'', ''b'', ''a''])
             (initial_state (parsed_problem broken_cyclic_env)) = [[''open'']]"
    by (simp add: broken_cyclic_env_def kitchen_env_def)
  have r: "new_sampler ObjectBasedSampler ''a'' (Some ''b'') None
             \<in> set (conditional_placement_on_objects_initializer mixed_cyclic_built)"
    "new_sampler ObjectBasedSampler ''b'' (Some ''a'') None
             \<in> set (conditional_placement_on_objects_initializer mixed_cyclic_built)"
    using cyclic_on_atoms_register_both_samplers[OF m] mixed_cyclic_setup by blast+
  have "setup_placement_initializer
          (with_initial_state
             (filter (\<lambda>s. s \<noteq> [''on'', ''a'', ''b''] \<and> s \<noteq> [''on'', ''b'', ''a''])
                (initial_state (parsed_problem broken_cyclic_env))) broken_cyclic_env) =
        Inl IndexError"
    using cyclic_on_atoms_register_both_samplers[OF k] broken_cyclic_setup by blast
  then have w: "setup_placement_initializer
                  (with_initial_state [[''open'']] broken_cyclic_env) = Inl IndexError"
    by (simp only: f)
  from m k r w mixed_cyclic_setup broken_cyclic_setup show ?thesis
    by blast
qed

subsection \<open>Sampling order at reset\<close>


























end
